theory Spec2Isabelle
  imports Complex_Main "HOL-Library.AList" "HOL-Library.Multiset"
begin

section \<open>Conventions of the embedding\<close>

text \<open>
  The development embeds the ranking engine (\<^verbatim>\<open>services/ranking.py\<close>), embedding fusion and
  the search pipeline (\<^verbatim>\<open>services/search_service.py\<close>, \<^verbatim>\<open>services/search_variants.py\<close>,
  \<^verbatim>\<open>api/ab_search.py\<close>), the experiment manager (\<^verbatim>\<open>services/ab_testing.py\<close>) and the click
  tracker (\<^verbatim>\<open>services/click_tracking.py\<close>).

  \<^item> A Python \<^verbatim>\<open>float\<close> is a \<^typ>\<open>real\<close>, and every arithmetic operation of the pure Python
    code rounds its exact result to binary64 (\<open>b64\<close> below: to the nearest number with a
    significand of 53 bits, a tie to the even one). The exponent is not bounded, so the
    model is the code wherever no operation overflows or underflows.
  \<^item> The numpy arithmetic of \<^verbatim>\<open>fuse_embeddings\<close> (arrays of either precision, the norm of
    the library) is modelled in exact real arithmetic; where the source can produce a
    non-finite number (a division by a zero norm) the value is made explicit.
  \<^item> Python \<^verbatim>\<open>str\<close> is \<^typ>\<open>string\<close>; a character is read as the code point of the same
    number (0 to 255). \<^verbatim>\<open>Optional[str]\<close> is \<^typ>\<open>string option\<close>.
  \<^item> A \<^verbatim>\<open>dict\<close> whose iteration order matters is an association list with distinct
    keys, in insertion order; a class or a dict with fixed keys is a record.
  \<^item> An exception is the \<open>Inl\<close> branch of a sum type.
  \<^item> Calls to collaborators outside the repository (CLIP model, Weaviate, MongoDB,
    the clock, the random generator) are parameters of the functions that use them.
  \<^item> A leading underscore of a source name is dropped (\<^verbatim>\<open>_tokenize\<close> is \<open>tokenize\<close>).
\<close>

section \<open>Python floats\<close>

text \<open>Rounding to the nearest integer, a tie to the even one.\<close>

definition round_half_even :: "real \<Rightarrow> int" where
  "round_half_even x =
     (let f = \<lfloor>x\<rfloor>; d = x - of_int f
      in if d < 1 / 2 then f else if 1 / 2 < d then f + 1 else if even f then f else f + 1)"

text \<open>Rounding to binary64: for \<open>x\<close> between \<open>2^e\<close> and \<open>2^(e+1)\<close> the result is the
  nearest multiple of \<open>2^(e-52)\<close>.\<close>

definition b64 :: "real \<Rightarrow> real" where
  "b64 x =
     (if x = 0 then 0
      else let e = \<lfloor>log 2 \<bar>x\<bar>\<rfloor>; q = 2 powr of_int (e - 52)
           in of_int (round_half_even (x / q)) * q)"

definition fadd :: "real \<Rightarrow> real \<Rightarrow> real" where
  "fadd x y = b64 (x + y)"

definition fmul :: "real \<Rightarrow> real \<Rightarrow> real" where
  "fmul x y = b64 (x * y)"

definition fdiv :: "real \<Rightarrow> real \<Rightarrow> real" where
  "fdiv x y = b64 (x / y)"

text \<open>\<^verbatim>\<open>math.sqrt\<close>, and the conversion of a Python integer to a float.\<close>

definition fsqrt :: "real \<Rightarrow> real" where
  "fsqrt x = b64 (sqrt x)"

definition float_of_int :: "int \<Rightarrow> real" where
  "float_of_int n = b64 (of_int n)"


section \<open>Python string helpers\<close>

text \<open>\<^verbatim>\<open>str.lower()\<close> on code points below 256: A-Z and the Latin-1 capitals
  (0xC0-0xDE without the multiplication sign 0xD7) move up by 32.\<close>

definition py_lower_char :: "char \<Rightarrow> char" where
  "py_lower_char c =
     (let n = (of_char c :: nat)
      in if (65 \<le> n \<and> n \<le> 90) \<or> (192 \<le> n \<and> n \<le> 222 \<and> n \<noteq> 215)
         then char_of (n + 32) else c)"

definition py_lower :: "string \<Rightarrow> string" where
  "py_lower s = map py_lower_char s"

text \<open>\<^verbatim>\<open>str.isspace()\<close> on code points below 256.\<close>

definition py_isspace :: "char \<Rightarrow> bool" where
  "py_isspace c =
     (let n = (of_char c :: nat)
      in (9 \<le> n \<and> n \<le> 13) \<or> (28 \<le> n \<and> n \<le> 32) \<or> n = 133 \<or> n = 160)"

definition py_strip :: "string \<Rightarrow> string" where
  "py_strip s = rev (dropWhile py_isspace (rev (dropWhile py_isspace s)))"

text \<open>The truth value of an \<^verbatim>\<open>Optional[str]\<close>: \<^verbatim>\<open>None\<close> and \<^verbatim>\<open>""\<close> are falsy.\<close>

fun truthy :: "string option \<Rightarrow> bool" where
  "truthy None = False"
| "truthy (Some s) = (s \<noteq> [])"

section \<open>Ranking: \<^verbatim>\<open>services/ranking.py\<close>\<close>

subsection \<open>Tokens and bags of words\<close>

text \<open>The character class \<^verbatim>\<open>[a-z0-9]\<close>.\<close>

definition is_token_char :: "char \<Rightarrow> bool" where
  "is_token_char c =
     (let n = (of_char c :: nat) in (97 \<le> n \<and> n \<le> 122) \<or> (48 \<le> n \<and> n \<le> 57))"

text \<open>\<^verbatim>\<open>re.findall(r"[a-z0-9]+", s)\<close>: the maximal runs of token characters, left to
  right. The first argument is the run being read, reversed.\<close>

fun findall_tokens :: "string \<Rightarrow> string \<Rightarrow> string list" where
  "findall_tokens cur [] = (if cur = [] then [] else [rev cur])"
| "findall_tokens cur (c # cs) =
     (if is_token_char c then findall_tokens (c # cur) cs
      else if cur = [] then findall_tokens [] cs
      else rev cur # findall_tokens [] cs)"

definition tokenize :: "string \<Rightarrow> string list" where
  "tokenize text = (if text = [] then [] else findall_tokens [] (py_lower text))"

text \<open>\<^verbatim>\<open>freq[t] = freq.get(t, 0) + 1\<close> on a dict kept in insertion order.\<close>

definition bow_step :: "(string \<times> int) list \<Rightarrow> string \<Rightarrow> (string \<times> int) list" where
  "bow_step freq t =
     AList.update t ((case map_of freq t of None \<Rightarrow> 0 | Some n \<Rightarrow> n) + 1) freq"

definition bow :: "string \<Rightarrow> (string \<times> int) list" where
  "bow text = foldl bow_step [] (tokenize text)"

subsection \<open>Cosine similarity of two frequency dicts\<close>

definition dict_dot :: "(string \<times> int) list \<Rightarrow> (string \<times> int) list \<Rightarrow> int" where
  "dict_dot freq_a freq_b =
     (\<Sum>(k, va) \<leftarrow> freq_a.
        (case map_of freq_b k of
           None \<Rightarrow> 0
         | Some vb \<Rightarrow> if vb \<noteq> 0 then va * vb else 0))"

definition dict_norm :: "(string \<times> int) list \<Rightarrow> real" where
  "dict_norm freq = fsqrt (float_of_int (\<Sum>(k, v) \<leftarrow> freq. v * v))"

definition cosine_sim :: "(string \<times> int) list \<Rightarrow> (string \<times> int) list \<Rightarrow> real" where
  "cosine_sim freq_a freq_b =
     (if freq_a = [] \<or> freq_b = [] then 0
      else let dot = dict_dot freq_a freq_b;
               na = dict_norm freq_a;
               nb = dict_norm freq_b
           in if na = 0 \<or> nb = 0 then 0
              else fdiv (float_of_int dot) (fmul na nb))"

definition text_similarity :: "string option \<Rightarrow> string option \<Rightarrow> real" where
  "text_similarity query_text title =
     (if \<not> truthy query_text \<or> \<not> truthy title then 0
      else cosine_sim (bow (the query_text)) (bow (the title)))"

definition exact_match_boost :: "string option \<Rightarrow> string option \<Rightarrow> real" where
  "exact_match_boost a b =
     (if \<not> truthy a \<or> \<not> truthy b then 0
      else if py_lower (py_strip (the a)) = py_lower (py_strip (the b)) then 1 else 0)"

subsection \<open>The weighted score\<close>

definition default_weights :: "string \<rightharpoonup> real" where
  "default_weights =
     [''vector'' \<mapsto> b64 (5 / 10), ''color'' \<mapsto> b64 (2 / 10), ''category'' \<mapsto> b64 (2 / 10),
      ''text'' \<mapsto> b64 (1 / 10)]"

text \<open>\<^verbatim>\<open>if weights: w.update(weights)\<close>; an empty dict is falsy.\<close>

definition effective_weights :: "(string \<rightharpoonup> real) option \<Rightarrow> (string \<rightharpoonup> real)" where
  "effective_weights weights =
     (case weights of
        None \<Rightarrow> default_weights
      | Some ws \<Rightarrow> if ws = Map.empty then default_weights else default_weights ++ ws)"

text \<open>\<^verbatim>\<open>w[key]\<close> for one of the four keys, which \<open>default_weights\<close> always defines.\<close>

definition weight :: "(string \<rightharpoonup> real) \<Rightarrow> string \<Rightarrow> real" where
  "weight w key = (case w key of Some x \<Rightarrow> x | None \<Rightarrow> 0)"

definition compute_final_score ::
  "real option \<Rightarrow> real \<Rightarrow> real \<Rightarrow> real \<Rightarrow> (string \<rightharpoonup> real) option \<Rightarrow> real" where
  "compute_final_score vector_sim color_match category_match text_sim weights =
     (let w = effective_weights weights;
          v = (case vector_sim of Some x \<Rightarrow> x | None \<Rightarrow> 0);
          score = fadd (fadd (fadd (fmul (weight w ''vector'') v)
                                   (fmul (weight w ''color'') color_match))
                             (fmul (weight w ''category'') category_match))
                       (fmul (weight w ''text'') text_sim)
      in max 0 (min 1 score))"

subsection \<open>Re-ranking\<close>

text \<open>The per-factor breakdown stored under \<^verbatim>\<open>"debug_scores"\<close>.\<close>

record score_breakdown =
  vector_score :: real
  color_score :: real
  category_score :: real
  text_score :: real
  dbg_final_score :: real

text \<open>
  A result dict, as \<^verbatim>\<open>SearchResult.to_dict\<close> builds it and \<^verbatim>\<open>rerank_results\<close> reads and
  extends it. A key that is absent and a key bound to \<^verbatim>\<open>None\<close> are both \<open>None\<close>:
  the code reads every key with \<^verbatim>\<open>dict.get\<close>. Every further key of the dict is kept,
  with its value of some type \<open>'v\<close>, in \<open>rd_other\<close>.
\<close>

record 'v result_dict =
  rd_product_id :: "string option"
  rd_title :: "string option"
  rd_description :: "string option"
  rd_color :: "string option"
  rd_category :: "string option"
  rd_image_path :: "string option"
  rd_similarity :: "real option"
  rd_distance :: "real option"
  rd_final_score :: "real option"
  rd_debug_scores :: "score_breakdown option"
  rd_other :: "(string \<times> 'v) list"

text \<open>
  \<^verbatim>\<open>rerank_results\<close> also takes results that are no dicts, such as a \<^verbatim>\<open>SearchResult\<close>: an
  object with attributes. \<^verbatim>\<open>getattr(result, name, None)\<close> reads the eight expected ones, a
  missing attribute being \<open>None\<close>; \<open>ob_other\<close> holds every other attribute of the object.
\<close>

record 'v result_object =
  ob_product_id :: "string option"
  ob_title :: "string option"
  ob_description :: "string option"
  ob_color :: "string option"
  ob_category :: "string option"
  ob_image_path :: "string option"
  ob_similarity :: "real option"
  ob_distance :: "real option"
  ob_other :: "(string \<times> 'v) list"

datatype 'v result_input = AsDict "'v result_dict" | AsObject "'v result_object"

text \<open>\<^verbatim>\<open>_result_to_dict\<close>: a dict is returned as it is, an object becomes a new dict of the
  eight expected keys.\<close>

fun result_to_dict :: "'v result_input \<Rightarrow> 'v result_dict" where
  "result_to_dict (AsDict result) = result"
| "result_to_dict (AsObject result) =
     \<lparr>rd_product_id = ob_product_id result, rd_title = ob_title result,
      rd_description = ob_description result, rd_color = ob_color result,
      rd_category = ob_category result, rd_image_path = ob_image_path result,
      rd_similarity = ob_similarity result, rd_distance = ob_distance result,
      rd_final_score = None, rd_debug_scores = None, rd_other = []\<rparr>"

text \<open>The score that the loop body of \<^verbatim>\<open>rerank_results\<close> computes for one result.\<close>

definition result_score ::
  "string option \<Rightarrow> string option \<Rightarrow> string option \<Rightarrow> (string \<rightharpoonup> real) option
     \<Rightarrow> 'v result_dict \<Rightarrow> real" where
  "result_score query_text query_color query_category weights rd =
     compute_final_score (rd_similarity rd)
       (exact_match_boost query_color (rd_color rd))
       (exact_match_boost query_category (rd_category rd))
       (text_similarity query_text (rd_title rd))
       weights"

text \<open>The loop body: the dict with \<^verbatim>\<open>final_score\<close> and \<^verbatim>\<open>debug_scores\<close> written as asked.\<close>

definition score_result ::
  "string option \<Rightarrow> string option \<Rightarrow> string option \<Rightarrow> (string \<rightharpoonup> real) option
     \<Rightarrow> bool \<Rightarrow> bool \<Rightarrow> 'v result_dict \<Rightarrow> real \<times> 'v result_dict" where
  "score_result query_text query_color query_category weights add_score_field add_debug_scores rd =
     (let vector_sim = rd_similarity rd;
          color_match = exact_match_boost query_color (rd_color rd);
          category_match = exact_match_boost query_category (rd_category rd);
          text_sim = text_similarity query_text (rd_title rd);
          score = compute_final_score vector_sim color_match category_match text_sim weights;
          rd1 = (if add_score_field then rd\<lparr>rd_final_score := Some score\<rparr> else rd);
          rd2 = (if add_debug_scores
                 then rd1\<lparr>rd_debug_scores := Some
                        \<lparr>vector_score = (case vector_sim of Some x \<Rightarrow> x | None \<Rightarrow> 0),
                         color_score = color_match,
                         category_score = category_match,
                         text_score = text_sim,
                         dbg_final_score = score\<rparr>\<rparr>
                 else rd1)
      in (score, rd2))"

text \<open>\<^verbatim>\<open>list.sort(key=..., reverse=True)\<close>: CPython reverses the list, sorts it stably in
  ascending order and reverses the outcome, which keeps equal keys in their original
  order.\<close>

definition sort_key_reverse :: "('a \<Rightarrow> real) \<Rightarrow> 'a list \<Rightarrow> 'a list" where
  "sort_key_reverse f xs = rev (sort_key f (rev xs))"

definition rerank_results ::
  "'v result_input list \<Rightarrow> string option \<Rightarrow> string option \<Rightarrow> string option
     \<Rightarrow> (string \<rightharpoonup> real) option \<Rightarrow> bool \<Rightarrow> bool \<Rightarrow> 'v result_dict list" where
  "rerank_results results query_text query_color query_category weights
                  add_score_field add_debug_scores =
     (let scored = map (\<lambda>res. score_result query_text query_color query_category weights
                                 add_score_field add_debug_scores (result_to_dict res)) results
      in map snd (sort_key_reverse fst scored))"

section \<open>Exceptions\<close>

datatype exn =
  ValueError string
| IndexError string
| ValidationError string
| Exception string
| HTTPException int string
| CollaboratorError string

text \<open>\<^verbatim>\<open>str(e)\<close>; for an \<^verbatim>\<open>HTTPException\<close> the detail.\<close>

fun exn_message :: "exn \<Rightarrow> string" where
  "exn_message (ValueError m) = m"
| "exn_message (IndexError m) = m"
| "exn_message (ValidationError m) = m"
| "exn_message (Exception m) = m"
| "exn_message (HTTPException code m) = m"
| "exn_message (CollaboratorError m) = m"

text \<open>The slices \<^verbatim>\<open>xs[:k]\<close> and \<^verbatim>\<open>xs[start:]\<close> for a Python integer: a negative bound counts
  from the end of the list and is cut off at its beginning.\<close>

definition py_slice_to :: "int \<Rightarrow> 'a list \<Rightarrow> 'a list" where
  "py_slice_to k xs =
     (if k < 0 then take (nat (int (length xs) + k)) xs else take (nat k) xs)"

definition py_slice_from :: "int \<Rightarrow> 'a list \<Rightarrow> 'a list" where
  "py_slice_from start xs =
     (if start < 0 then drop (nat (int (length xs) + start)) xs else drop (nat start) xs)"

section \<open>Embedding fusion and search: \<^verbatim>\<open>services/search_service.py\<close>\<close>

subsection \<open>Fusion\<close>







subsection \<open>Search results\<close>

text \<open>The properties of a product as the vector index returns them.\<close>

record product_data =
  pd_product_id :: "string option"
  pd_title :: "string option"
  pd_description :: "string option"
  pd_color :: "string option"
  pd_category :: "string option"
  pd_image_path :: "string option"

record raw_result =
  properties :: product_data
  raw_similarity :: real
  raw_distance :: real

record SearchResult =
  product_id :: "string option"
  title :: "string option"
  description :: "string option"
  color :: "string option"
  category :: "string option"
  image_path :: "string option"
  similarity :: real
  distance :: real
  debug_scores :: "score_breakdown option"

text \<open>\<^verbatim>\<open>SearchResult.__init__\<close> on the properties of a raw result.\<close>

definition SearchResult_init :: "product_data \<Rightarrow> real \<Rightarrow> real \<Rightarrow> SearchResult" where
  "SearchResult_init pd sim dst =
     \<lparr>product_id = pd_product_id pd, title = pd_title pd, description = pd_description pd,
      color = pd_color pd, category = pd_category pd, image_path = pd_image_path pd,
      similarity = sim, distance = dst, debug_scores = None\<rparr>"

definition to_dict :: "SearchResult \<Rightarrow> unit result_dict" where
  "to_dict r =
     \<lparr>rd_product_id = product_id r, rd_title = title r, rd_description = description r,
      rd_color = color r, rd_category = category r, rd_image_path = image_path r,
      rd_similarity = Some (similarity r), rd_distance = Some (distance r),
      rd_final_score = None, rd_debug_scores = debug_scores r, rd_other = []\<rparr>"

text \<open>Lines 214 to 221: the \<^verbatim>\<open>SearchResult\<close> built from a re-ranked dict.\<close>

definition from_reranked :: "unit result_dict \<Rightarrow> SearchResult" where
  "from_reranked rd =
     \<lparr>product_id = rd_product_id rd, title = rd_title rd, description = rd_description rd,
      color = rd_color rd, category = rd_category rd, image_path = rd_image_path rd,
      similarity = (case rd_final_score rd of
                      Some s \<Rightarrow> s
                    | None \<Rightarrow> (case rd_similarity rd of Some s \<Rightarrow> s | None \<Rightarrow> 0)),
      distance = (case rd_distance rd of Some d \<Rightarrow> d | None \<Rightarrow> 0),
      debug_scores = rd_debug_scores rd\<rparr>"

subsection \<open>The collaborators and the search methods\<close>

record collaborators =
  embed_text :: "string \<Rightarrow> exn + real list"
  weaviate_search :: "real list \<Rightarrow> int \<Rightarrow> string option \<Rightarrow> string option
                        \<Rightarrow> exn + raw_result list"

text \<open>The filter that \<^verbatim>\<open>search_by_vector\<close> hands to the index: a falsy filter is left out.\<close>

definition given_filter :: "string option \<Rightarrow> string option" where
  "given_filter f = (if truthy f then f else None)"

definition keep_raw :: "string option \<Rightarrow> string option \<Rightarrow> raw_result \<Rightarrow> bool" where
  "keep_raw category_filter color_filter raw =
     (\<not> (truthy category_filter \<and> pd_category (properties raw) \<noteq> category_filter)
      \<and> \<not> (truthy color_filter \<and> pd_color (properties raw) \<noteq> color_filter))"

definition search_by_vector ::
  "collaborators \<Rightarrow> real list \<Rightarrow> int \<Rightarrow> string option \<Rightarrow> string option
     \<Rightarrow> exn + SearchResult list" where
  "search_by_vector co query_vector top_k category_filter color_filter =
     (case weaviate_search co query_vector top_k
             (given_filter category_filter) (given_filter color_filter) of
        Inl e \<Rightarrow> Inl e
      | Inr raw_results \<Rightarrow>
          Inr (py_slice_to top_k
                 (map (\<lambda>raw. SearchResult_init (properties raw) (raw_similarity raw)
                                (raw_distance raw))
                      (filter (keep_raw category_filter color_filter) raw_results))))"

text \<open>Lines 197 to 224 of \<^verbatim>\<open>search_by_text\<close>, after the retrieval.\<close>

definition rerank_search_results ::
  "SearchResult list \<Rightarrow> string \<Rightarrow> int \<Rightarrow> string option \<Rightarrow> string option \<Rightarrow> bool \<Rightarrow> bool
     \<Rightarrow> SearchResult list" where
  "rerank_search_results initial_results query_text top_k category_filter color_filter
                         enable_reranking enable_debug =
     (if \<not> enable_reranking \<or> length initial_results = 0
      then py_slice_to top_k initial_results
      else map from_reranked
             (py_slice_to top_k
                (rerank_results (map (\<lambda>r. AsDict (to_dict r)) initial_results) (Some query_text)
                   color_filter category_filter None True enable_debug)))"

definition search_by_text ::
  "collaborators \<Rightarrow> string \<Rightarrow> int \<Rightarrow> string option \<Rightarrow> string option \<Rightarrow> bool \<Rightarrow> bool
     \<Rightarrow> exn + SearchResult list" where
  "search_by_text co query_text top_k category_filter color_filter
                  enable_reranking enable_debug =
     (case embed_text co query_text of
        Inl e \<Rightarrow> Inl e
      | Inr query_vector \<Rightarrow>
          (let fetch_limit = (if enable_reranking then max 30 (top_k * 3) else top_k)
           in case search_by_vector co query_vector fetch_limit category_filter color_filter of
                Inl e \<Rightarrow> Inl e
              | Inr initial_results \<Rightarrow>
                  Inr (rerank_search_results initial_results query_text top_k
                         category_filter color_filter enable_reranking enable_debug)))"

section \<open>Search variants: \<^verbatim>\<open>services/search_variants.py\<close>\<close>

text \<open>\<^verbatim>\<open>ProductResult\<close> is a pydantic model whose six text fields are required strings:
  building one from a \<^verbatim>\<open>None\<close> raises a validation error.\<close>

record ProductResult =
  pr_product_id :: string
  pr_title :: string
  pr_description :: string
  pr_color :: string
  pr_category :: string
  pr_image_path :: string
  pr_similarity :: real
  pr_distance :: real
  pr_debug_scores :: "score_breakdown option"

definition ProductResult_init :: "SearchResult \<Rightarrow> exn + ProductResult" where
  "ProductResult_init r =
     (case (product_id r, title r, description r, color r, category r, image_path r) of
        (Some p, Some t, Some d, Some c, Some g, Some i) \<Rightarrow>
          Inr \<lparr>pr_product_id = p, pr_title = t, pr_description = d, pr_color = c,
               pr_category = g, pr_image_path = i, pr_similarity = similarity r,
               pr_distance = distance r, pr_debug_scores = debug_scores r\<rparr>
      | _ \<Rightarrow> Inl (ValidationError ''Input should be a valid string''))"

text \<open>The list comprehension over the results: the first failing conversion raises.\<close>

fun product_results :: "SearchResult list \<Rightarrow> exn + ProductResult list" where
  "product_results [] = Inr []"
| "product_results (r # rs) =
     (case ProductResult_init r of
        Inl e \<Rightarrow> Inl e
      | Inr p \<Rightarrow> (case product_results rs of Inl e \<Rightarrow> Inl e | Inr ps \<Rightarrow> Inr (p # ps)))"


text \<open>The body of both \<^verbatim>\<open>search_by_text\<close> methods; they differ in the re-ranking flag and
  in the prefix of the message. \<open>elapsed_ms\<close> is what the clock measures.\<close>

definition variant_search ::
  "bool \<Rightarrow> string \<Rightarrow> collaborators \<Rightarrow> string \<Rightarrow> int \<Rightarrow> string option \<Rightarrow> string option
     \<Rightarrow> bool \<Rightarrow> real \<Rightarrow> exn + (ProductResult list \<times> real)" where
  "variant_search reranking prefix co query_text top_k category_filter color_filter
                  debug elapsed_ms =
     (case search_by_text co query_text top_k category_filter color_filter reranking debug of
        Inl e \<Rightarrow> Inl (Exception (prefix @ exn_message e))
      | Inr results \<Rightarrow>
          (case product_results results of
             Inl e \<Rightarrow> Inl (Exception (prefix @ exn_message e))
           | Inr prs \<Rightarrow> Inr (prs, elapsed_ms)))"





section \<open>Experiment manager: \<^verbatim>\<open>services/ab_testing.py\<close>\<close>

datatype ExperimentVariant = SEARCH_V1 | SEARCH_V2

text \<open>Times are instants of \<^verbatim>\<open>datetime.utcnow()\<close>, counted in microseconds.\<close>

record ExperimentAssignment =
  asg_user_id :: string
  asg_variant :: ExperimentVariant
  assigned_at :: int
  asg_metadata :: "(string \<times> string) list"

text \<open>The event classes: the fields of the base class, and what a subclass adds.\<close>

datatype event_detail =
  BaseEvent
| SearchEvent (results_count: int) (search_time_ms: real) (search_event_type: string)
| ClickEvent (click_product_id: string) (product_title: string) (position: int)
             (click_event_type: string)

record ExperimentEvent =
  ev_user_id :: string
  ev_variant :: ExperimentVariant
  timestamp :: int
  query :: "string option"
  session_id :: "string option"
  ev_metadata :: "(string \<times> string) list"
  detail :: event_detail

text \<open>\<^verbatim>\<open>getattr(e, 'event_type', None)\<close>.\<close>

definition event_type_of :: "ExperimentEvent \<Rightarrow> string option" where
  "event_type_of e =
     (case detail e of
        BaseEvent \<Rightarrow> None
      | SearchEvent n t ty \<Rightarrow> Some ty
      | ClickEvent p pt pos ty \<Rightarrow> Some ty)"

text \<open>
  The manager. \<open>assignments\<close> and \<open>events\<close> are \<^verbatim>\<open>_assignments\<close> and \<^verbatim>\<open>_events\<close>;
  \<open>redis_kv\<close> is the content of the Redis server under the assignment keys, read back as
  the assignment that was serialised (the 30 days expiry of a key is a matter of real
  time and is not modelled). The JSONL file and the Redis event lists are only written,
  never read, and are left out.
\<close>

record ExperimentManager =
  variants :: "ExperimentVariant list"
  split_ratio :: real
  storage_backend :: string
  assignments :: "(string \<times> ExperimentAssignment) list"
  events :: "ExperimentEvent list"
  redis_kv :: "string \<rightharpoonup> ExperimentAssignment"

text \<open>\<^verbatim>\<open>__init__\<close>; \<open>redis_ok\<close> tells whether the connection to Redis succeeds.\<close>

definition ExperimentManager_init ::
  "ExperimentVariant list \<Rightarrow> real \<Rightarrow> string \<Rightarrow> bool \<Rightarrow> (string \<rightharpoonup> ExperimentAssignment)
     \<Rightarrow> ExperimentManager" where
  "ExperimentManager_init vs ratio backend redis_ok redis_content =
     \<lparr>variants = (if vs = [] then [SEARCH_V1, SEARCH_V2] else vs),
      split_ratio = ratio,
      storage_backend = (if backend = ''redis'' \<and> \<not> redis_ok then ''memory'' else backend),
      assignments = [],
      events = [],
      redis_kv = redis_content\<rparr>"

definition assignment_key :: "string \<Rightarrow> string" where
  "assignment_key user_id = ''ab:assignment:'' @ user_id"

definition get_assignment :: "ExperimentManager \<Rightarrow> string \<Rightarrow> ExperimentAssignment option" where
  "get_assignment m user_id =
     (if storage_backend m = ''memory'' then map_of (assignments m) user_id
      else if storage_backend m = ''redis'' then redis_kv m (assignment_key user_id)
      else None)"

definition store_assignment :: "ExperimentManager \<Rightarrow> ExperimentAssignment \<Rightarrow> ExperimentManager" where
  "store_assignment m a =
     (if storage_backend m = ''memory''
      then m\<lparr>assignments := AList.update (asg_user_id a) a (assignments m)\<rparr>
      else if storage_backend m = ''redis''
      then m\<lparr>redis_kv := (redis_kv m)(assignment_key (asg_user_id a) \<mapsto> a)\<rparr>
      else m)"

text \<open>\<^verbatim>\<open>self.variants[i]\<close>.\<close>

definition variant_at :: "ExperimentManager \<Rightarrow> nat \<Rightarrow> exn + ExperimentVariant" where
  "variant_at m i =
     (if i < length (variants m) then Inr (variants m ! i)
      else Inl (IndexError ''list index out of range''))"

text \<open>\<open>draw\<close> is the value of \<^verbatim>\<open>random.random()\<close>, \<open>now\<close> the clock when the assignment is
  built. An assignment object is always truthy, so \<^verbatim>\<open>if existing\<close> asks whether there
  is one.\<close>

definition assign_variant ::
  "ExperimentManager \<Rightarrow> string \<Rightarrow> (string \<times> string) list option \<Rightarrow> real \<Rightarrow> int
     \<Rightarrow> exn + (ExperimentAssignment \<times> ExperimentManager)" where
  "assign_variant m user_id metadata draw now =
     (case get_assignment m user_id of
        Some existing \<Rightarrow> Inr (existing, m)
      | None \<Rightarrow>
          (case (if draw < split_ratio m then variant_at m 0 else variant_at m 1) of
             Inl e \<Rightarrow> Inl e
           | Inr v \<Rightarrow>
               (let assignment =
                      \<lparr>asg_user_id = user_id, asg_variant = v, assigned_at = now,
                       asg_metadata = (case metadata of None \<Rightarrow> [] | Some md \<Rightarrow> md)\<rparr>
                in Inr (assignment, store_assignment m assignment))))"

definition log_event :: "ExperimentManager \<Rightarrow> ExperimentEvent \<Rightarrow> ExperimentManager" where
  "log_event m event = m\<lparr>events := events m @ [event]\<rparr>"

text \<open>\<^verbatim>\<open>self.get_assignment(user_id) or self.assign_variant(user_id)\<close>.\<close>

definition assignment_for ::
  "ExperimentManager \<Rightarrow> string \<Rightarrow> real \<Rightarrow> int
     \<Rightarrow> exn + (ExperimentAssignment \<times> ExperimentManager)" where
  "assignment_for m user_id draw now =
     (case get_assignment m user_id of
        Some a \<Rightarrow> Inr (a, m)
      | None \<Rightarrow> assign_variant m user_id None draw now)"

text \<open>\<open>now\<close> is the clock at the assignment, \<open>now'\<close> the clock when the event is built.\<close>

definition log_search ::
  "ExperimentManager \<Rightarrow> string \<Rightarrow> string \<Rightarrow> int \<Rightarrow> real \<Rightarrow> string option \<Rightarrow> real \<Rightarrow> int \<Rightarrow> int
     \<Rightarrow> exn + (ExperimentEvent \<times> ExperimentManager)" where
  "log_search m user_id q n_results time_ms session draw now now' =
     (case assignment_for m user_id draw now of
        Inl e \<Rightarrow> Inl e
      | Inr (assignment, m1) \<Rightarrow>
          (let event =
                 \<lparr>ev_user_id = user_id, ev_variant = asg_variant assignment, timestamp = now',
                  query = Some q, session_id = session, ev_metadata = [],
                  detail = SearchEvent n_results time_ms ''search''\<rparr>
           in Inr (event, log_event m1 event)))"

definition log_click ::
  "ExperimentManager \<Rightarrow> string \<Rightarrow> string \<Rightarrow> string \<Rightarrow> int \<Rightarrow> string option \<Rightarrow> string option
     \<Rightarrow> real \<Rightarrow> int \<Rightarrow> int \<Rightarrow> exn + (ExperimentEvent \<times> ExperimentManager)" where
  "log_click m user_id pid ptitle pos q session draw now now' =
     (case assignment_for m user_id draw now of
        Inl e \<Rightarrow> Inl e
      | Inr (assignment, m1) \<Rightarrow>
          (let event =
                 \<lparr>ev_user_id = user_id, ev_variant = asg_variant assignment, timestamp = now',
                  query = q, session_id = session, ev_metadata = [],
                  detail = ClickEvent pid ptitle pos ''click''\<rparr>
           in Inr (event, log_event m1 event)))"

text \<open>The three filters of \<^verbatim>\<open>get_events\<close>, each applied only when its argument is truthy
  (a variant is a non-empty string, so it is truthy whenever it is given).\<close>

definition get_events ::
  "ExperimentManager \<Rightarrow> string option \<Rightarrow> ExperimentVariant option \<Rightarrow> string option \<Rightarrow> int
     \<Rightarrow> ExperimentEvent list" where
  "get_events m user_id variant event_type limit =
     (let es0 = events m;
          es1 = (if truthy user_id then filter (\<lambda>e. Some (ev_user_id e) = user_id) es0
                 else es0);
          es2 = (if variant \<noteq> None then filter (\<lambda>e. Some (ev_variant e) = variant) es1
                 else es1);
          es3 = (if truthy event_type then filter (\<lambda>e. event_type_of e = event_type) es2
                 else es2)
      in py_slice_from (- limit) es3)"




definition reset :: "ExperimentManager \<Rightarrow> ExperimentManager" where
  "reset m = m\<lparr>assignments := [], events := []\<rparr>"

text \<open>The calls a client of the manager can make between two look-ups, short of the
  administrative \<^verbatim>\<open>reset\<close>; \<open>apply_op\<close> is the manager after the call. A call that raises
  has not changed the manager.\<close>

datatype manager_op =
  AssignVariant string "(string \<times> string) list option" real int
| GetAssignment string
| LogEvent ExperimentEvent
| LogSearch string string int real "string option" real int int
| LogClick string string string int "string option" "string option" real int int
| GetEvents "string option" "ExperimentVariant option" "string option" int
| GetMetrics

fun apply_op :: "ExperimentManager \<Rightarrow> manager_op \<Rightarrow> ExperimentManager" where
  "apply_op m (AssignVariant u md draw now) =
     (case assign_variant m u md draw now of Inl e \<Rightarrow> m | Inr (a, m') \<Rightarrow> m')"
| "apply_op m (GetAssignment u) = m"
| "apply_op m (LogEvent e) = log_event m e"
| "apply_op m (LogSearch u q n t s draw now now') =
     (case log_search m u q n t s draw now now' of Inl e \<Rightarrow> m | Inr (ev, m') \<Rightarrow> m')"
| "apply_op m (LogClick u p pt pos q s draw now now') =
     (case log_click m u p pt pos q s draw now now' of Inl e \<Rightarrow> m | Inr (ev, m') \<Rightarrow> m')"
| "apply_op m (GetEvents u v ty limit) = m"
| "apply_op m GetMetrics = m"

definition apply_ops :: "ExperimentManager \<Rightarrow> manager_op list \<Rightarrow> ExperimentManager" where
  "apply_ops m ops = foldl apply_op m ops"

section \<open>The A/B search endpoint: \<^verbatim>\<open>api/ab_search.py\<close>\<close>




section \<open>Click tracking: \<^verbatim>\<open>services/click_tracking.py\<close>\<close>

















section \<open>Facts about rounding\<close>

lemma floor_log2_eq:
  assumes "2 powr of_int e \<le> \<bar>x\<bar>" "\<bar>x\<bar> < 2 powr of_int (e + 1)"
  shows "\<lfloor>log 2 \<bar>x\<bar>\<rfloor> = e"
proof -
  have pos: "0 < \<bar>x\<bar>" using assms(1) by (smt (verit) powr_gt_zero)
  have "of_int e \<le> log 2 \<bar>x\<bar>" using assms(1) pos by (simp add: le_log_iff)
  moreover have "log 2 \<bar>x\<bar> < of_int (e + 1)" using assms(2) pos by (simp add: log_less_iff)
  ultimately show ?thesis by linarith
qed

lemma b64_eval:
  assumes "2 powr of_int e \<le> \<bar>x\<bar>" "\<bar>x\<bar> < 2 powr of_int (e + 1)"
  shows "b64 x = of_int (round_half_even (x / 2 powr of_int (e - 52))) * 2 powr of_int (e - 52)"
proof -
  have "x \<noteq> 0" using assms(1) by (smt (verit) powr_gt_zero)
  then show ?thesis using floor_log2_eq[OF assms] by (simp add: b64_def Let_def)
qed

lemma rhe_bounds: "\<bar>of_int (round_half_even x) - x\<bar> \<le> 1 / 2"
  unfolding round_half_even_def Let_def by (auto simp: abs_le_iff; linarith)

lemma rhe_of_int: "round_half_even (of_int n) = n"
  by (simp add: round_half_even_def)

lemma rhe_range: "\<lfloor>x\<rfloor> \<le> round_half_even x \<and> round_half_even x \<le> \<lfloor>x\<rfloor> + 1"
  by (simp add: round_half_even_def Let_def)

lemma rhe_mono: "x \<le> y \<Longrightarrow> round_half_even x \<le> round_half_even y"
proof -
  assume xy: "x \<le> y"
  have fl: "\<lfloor>x\<rfloor> \<le> \<lfloor>y\<rfloor>" using xy by (rule floor_mono)
  show ?thesis
  proof (cases "\<lfloor>x\<rfloor> = \<lfloor>y\<rfloor>")
    case True
    then have "x - of_int \<lfloor>x\<rfloor> \<le> y - of_int \<lfloor>y\<rfloor>" using xy by simp
    then show ?thesis using True
      unfolding round_half_even_def Let_def by (auto split: if_splits)
  next
    case False
    then have "\<lfloor>x\<rfloor> + 1 \<le> \<lfloor>y\<rfloor>" using fl by linarith
    then show ?thesis using rhe_range[of x] rhe_range[of y] by linarith
  qed
qed

lemma floor_minus_nonint: "x \<noteq> of_int \<lfloor>x\<rfloor> \<Longrightarrow> \<lfloor>- x\<rfloor> = - \<lfloor>x\<rfloor> - 1"
proof -
  assume ni: "x \<noteq> of_int \<lfloor>x\<rfloor>"
  have 1: "of_int \<lfloor>x\<rfloor> < x" using ni of_int_floor_le[of x] by linarith
  have 2: "x < of_int \<lfloor>x\<rfloor> + 1" by linarith
  show ?thesis using 1 2 by (intro floor_unique) simp_all
qed

lemma rhe_minus: "round_half_even (- x) = - round_half_even x"
proof (cases "x = of_int \<lfloor>x\<rfloor>")
  case True
  then obtain n where "x = of_int n" ..
  then show ?thesis using rhe_of_int[of n] rhe_of_int[of "- n"] by simp
next
  case False
  have fm: "\<lfloor>- x\<rfloor> = - \<lfloor>x\<rfloor> - 1" using False by (rule floor_minus_nonint)
  have d: "0 < x - of_int \<lfloor>x\<rfloor>" using False of_int_floor_le[of x] by linarith
  define f where "f = \<lfloor>x\<rfloor>"
  define t where "t = x - of_int f"
  have x: "x = of_int f + t" by (simp add: t_def)
  have t: "0 < t" "t < 1" using d by (simp_all add: t_def f_def) linarith
  have L: "round_half_even (- x) =
     (if 1 - t < 1/2 then - f - 1 else if 1/2 < 1 - t then - f else if even (- f - 1) then - f - 1 else - f)"
    unfolding round_half_even_def Let_def fm f_def[symmetric] by (simp add: x)
  have R: "round_half_even x =
     (if t < 1/2 then f else if 1/2 < t then f + 1 else if even f then f else f + 1)"
    unfolding round_half_even_def Let_def f_def[symmetric] by (simp add: x)
  show ?thesis unfolding L R using t by (simp split: if_splits)
qed


lemma b64_minus: "b64 (- x) = - b64 x"
  by (simp add: b64_def Let_def rhe_minus)

lemma b64_zero: "b64 0 = 0"
  by (simp add: b64_def)

lemma log2_bracket:
  assumes "0 < x"
  shows "2 powr of_int \<lfloor>log 2 x\<rfloor> \<le> x" "x < 2 powr of_int (\<lfloor>log 2 x\<rfloor> + 1)"
proof -
  have "of_int \<lfloor>log 2 x\<rfloor> \<le> log 2 x" by simp
  then show "2 powr of_int \<lfloor>log 2 x\<rfloor> \<le> x" using assms by (simp add: powr_le_iff)
  have "log 2 x < of_int (\<lfloor>log 2 x\<rfloor> + 1)" by linarith
  then show "x < 2 powr of_int (\<lfloor>log 2 x\<rfloor> + 1)" using assms by (simp add: less_powr_iff)
qed

lemma b64_pos_range:
  assumes "2 powr of_int e \<le> x" "x < 2 powr of_int (e + 1)"
  shows "2 powr of_int e \<le> b64 x" "b64 x \<le> 2 powr of_int (e + 1)"
proof -
  define q :: real where "q = 2 powr of_int (e - 52)"
  have q: "0 < q" by (simp add: q_def)
  have xpos: "0 < x" using assms(1) by (smt (verit) powr_gt_zero)
  have ev: "b64 x = of_int (round_half_even (x / q)) * q"
    unfolding q_def using assms xpos by (intro b64_eval) simp_all
  have lo: "2 powr of_int e = of_int (2 ^ 52) * q"
    by (simp add: q_def powr_diff powr_numeral)
  have hi: "2 powr of_int (e + 1) = of_int (2 ^ 53) * q"
    by (simp add: q_def powr_diff powr_add powr_numeral)
  have "of_int (2 ^ 52) \<le> x / q" using assms(1) q unfolding lo by (simp add: field_simps)
  then have "round_half_even (of_int (2 ^ 52)) \<le> round_half_even (x / q)" by (rule rhe_mono)
  then have 1: "2 ^ 52 \<le> round_half_even (x / q)" unfolding rhe_of_int .
  have "x / q \<le> of_int (2 ^ 53)" using assms(2) q unfolding hi by (simp add: field_simps)
  then have "round_half_even (x / q) \<le> round_half_even (of_int (2 ^ 53))" by (rule rhe_mono)
  then have 2: "round_half_even (x / q) \<le> 2 ^ 53" unfolding rhe_of_int .
  have "of_int (2 ^ 52) * q \<le> of_int (round_half_even (x / q)) * q"
    using 1 q by (intro mult_right_mono) (simp_all only: of_int_le_iff less_imp_le)
  then show "2 powr of_int e \<le> b64 x" unfolding ev lo .
  have "of_int (round_half_even (x / q)) * q \<le> of_int (2 ^ 53) * q"
    using 2 q by (intro mult_right_mono) (simp_all only: of_int_le_iff less_imp_le)
  then show "b64 x \<le> 2 powr of_int (e + 1)" unfolding ev hi .
qed

lemma b64_pos: "0 < x \<Longrightarrow> 0 < b64 x"
  using b64_pos_range(1)[OF log2_bracket, of x] by (smt (verit) powr_gt_zero)

lemma b64_mono_pos:
  assumes "0 < x" "x \<le> y"
  shows "b64 x \<le> b64 y"
proof -
  define ex where "ex = \<lfloor>log 2 x\<rfloor>"
  define ey where "ey = \<lfloor>log 2 y\<rfloor>"
  have ypos: "0 < y" using assms by simp
  note bx = log2_bracket[OF assms(1), folded ex_def]
  note by' = log2_bracket[OF ypos, folded ey_def]
  have "log 2 x \<le> log 2 y" using assms by simp
  then have le: "ex \<le> ey" unfolding ex_def ey_def by (rule floor_mono)
  show ?thesis
  proof (cases "ex = ey")
    case True
    define q :: real where "q = 2 powr of_int (ex - 52)"
    have q: "0 < q" by (simp add: q_def)
    have 1: "b64 x = of_int (round_half_even (x / q)) * q"
      unfolding q_def using bx assms(1) by (intro b64_eval) simp_all
    have 2: "b64 y = of_int (round_half_even (y / q)) * q"
      unfolding q_def True using by' ypos by (intro b64_eval) simp_all
    have "x / q \<le> y / q" using assms(2) q by (simp add: divide_right_mono)
    then have "round_half_even (x / q) \<le> round_half_even (y / q)" by (rule rhe_mono)
    then show ?thesis unfolding 1 2 using q
      by (intro mult_right_mono) (simp_all only: of_int_le_iff less_imp_le)
  next
    case False
    then have "ex + 1 \<le> ey" using le by simp
    then have "(2::real) powr of_int (ex + 1) \<le> 2 powr of_int ey" by simp
    then show ?thesis
      using b64_pos_range(2)[OF bx] b64_pos_range(1)[OF by'] by linarith
  qed
qed

lemma b64_mono: "x \<le> y \<Longrightarrow> b64 x \<le> b64 y"
proof -
  assume xy: "x \<le> y"
  consider "0 < x" | "x \<le> 0" "0 \<le> y" | "y < 0" using xy by linarith
  then show ?thesis
  proof cases
    case 1
    then show ?thesis using xy by (rule b64_mono_pos)
  next
    case 2
    have "b64 x \<le> 0"
    proof (cases "x = 0")
      case True then show ?thesis by (simp add: b64_zero)
    next
      case False
      then have "0 < - x" using 2 by simp
      then have "0 < b64 (- x)" by (rule b64_pos)
      then show ?thesis by (simp add: b64_minus)
    qed
    moreover have "0 \<le> b64 y"
    proof (cases "y = 0")
      case True then show ?thesis by (simp add: b64_zero)
    next
      case False
      then have "0 < y" using 2 by simp
      then show ?thesis using b64_pos[of y] by simp
    qed
    ultimately show ?thesis by linarith
  next
    case 3
    then have "0 < - y" "- y \<le> - x" using xy by simp_all
    then have "b64 (- y) \<le> b64 (- x)" by (rule b64_mono_pos)
    then show ?thesis by (simp add: b64_minus)
  qed
qed

lemma b64_abs_err_pos:
  assumes "2 powr of_int e \<le> x" "x < 2 powr of_int (e + 1)"
  shows "\<bar>b64 x - x\<bar> \<le> 2 powr of_int (e - 53)"
proof -
  define q :: real where "q = 2 powr of_int (e - 52)"
  have q: "0 < q" by (simp add: q_def)
  have xpos: "0 < x" using assms(1) by (smt (verit) powr_gt_zero)
  have ev: "b64 x = of_int (round_half_even (x / q)) * q"
    unfolding q_def using assms xpos by (intro b64_eval) simp_all
  have "b64 x - x = (of_int (round_half_even (x / q)) - x / q) * q"
    unfolding ev using q by (simp add: field_simps)
  then have "\<bar>b64 x - x\<bar> = \<bar>of_int (round_half_even (x / q)) - x / q\<bar> * q"
    using q by (simp add: abs_mult)
  also have "\<dots> \<le> (1 / 2) * q" using rhe_bounds[of "x / q"] q by (intro mult_right_mono) simp_all
  also have "\<dots> = 2 powr of_int (e - 53)" by (simp add: q_def powr_diff powr_numeral)
  finally show ?thesis .
qed

lemma b64_rel_err: "\<bar>b64 x - x\<bar> \<le> \<bar>x\<bar> / 2 ^ 53"
proof -
  have pos: "\<bar>b64 x - x\<bar> \<le> x / 2 ^ 53" if "0 < x" for x
  proof -
    define e where "e = \<lfloor>log 2 x\<rfloor>"
    note b = log2_bracket[OF that, folded e_def]
    have "\<bar>b64 x - x\<bar> \<le> 2 powr of_int (e - 53)" using b by (rule b64_abs_err_pos)
    also have "\<dots> = 2 powr of_int e / 2 ^ 53" by (simp add: powr_diff powr_numeral)
    also have "\<dots> \<le> x / 2 ^ 53" using b(1) by (simp add: divide_right_mono)
    finally show ?thesis .
  qed
  consider "x = 0" | "0 < x" | "x < 0" by linarith
  then show ?thesis
  proof cases
    case 1 then show ?thesis by (simp add: b64_zero)
  next
    case 2 then show ?thesis using pos[of x] by simp
  next
    case 3
    then have "\<bar>b64 (- x) - (- x)\<bar> \<le> (- x) / 2 ^ 53" by (intro pos) simp
    then show ?thesis using 3 by (simp add: b64_minus abs_minus_commute)
  qed
qed

section \<open>The score in binary64\<close>

lemma b64_one: "b64 1 = 1"
proof -
  have "b64 1 = of_int (round_half_even (1 / 2 powr of_int (0 - 52))) * 2 powr of_int (0 - 52)"
    by (rule b64_eval) simp_all
  also have "1 / 2 powr of_int (0 - 52) = real_of_int (2 ^ 52)"
    by (simp add: powr_minus powr_numeral)
  finally show ?thesis by (simp only: rhe_of_int) (simp add: powr_minus powr_numeral)
qed

lemma b64_half: "b64 (1 / 2) = 1 / 2"
proof -
  have "b64 (1/2) = of_int (round_half_even ((1/2) / 2 powr of_int (-1 - 52))) * 2 powr of_int (-1 - 52)"
    by (rule b64_eval) (simp_all add: powr_minus)
  also have "(1/2) / 2 powr of_int (-1 - 52) = real_of_int (2 ^ 52)"
    by (simp add: powr_minus powr_numeral)
  finally show ?thesis by (simp only: rhe_of_int) (simp add: powr_minus powr_numeral)
qed

lemma b64_fifth: "b64 (1 / 5) = 3602879701896397 / 2 ^ 54"
proof -
  have "b64 (1/5) = of_int (round_half_even ((1/5) / 2 powr of_int (-3 - 52))) * 2 powr of_int (-3 - 52)"
    by (rule b64_eval) (simp_all add: powr_minus)
  also have "\<dots> = 3602879701896397 / 2 ^ 54"
    by (simp add: powr_minus round_half_even_def Let_def powr_numeral divide_simps)
  finally show ?thesis .
qed

lemma b64_tenth: "b64 (1 / 10) = 3602879701896397 / 2 ^ 55"
proof -
  have "b64 (1/10) = of_int (round_half_even ((1/10) / 2 powr of_int (-4 - 52))) * 2 powr of_int (-4 - 52)"
    by (rule b64_eval) (simp_all add: powr_minus)
  also have "\<dots> = 3602879701896397 / 2 ^ 55"
    by (simp add: powr_minus round_half_even_def Let_def powr_numeral divide_simps)
  finally show ?thesis .
qed

lemma b64_fifth_fixed: "b64 (3602879701896397 / 2 ^ 54) = 3602879701896397 / 2 ^ 54"
proof -
  have "b64 (3602879701896397 / 2 ^ 54) = of_int (round_half_even ((3602879701896397 / 2 ^ 54) / 2 powr of_int (-3 - 52))) * 2 powr of_int (-3 - 52)"
    by (rule b64_eval) (simp_all add: powr_minus)
  also have "(3602879701896397 / 2 ^ 54) / 2 powr of_int (-3 - 52) = real_of_int 7205759403792794"
    by (simp add: powr_minus powr_numeral)
  finally show ?thesis by (simp only: rhe_of_int) (simp add: powr_minus powr_numeral)
qed

lemma b64_tenth_fixed: "b64 (3602879701896397 / 2 ^ 55) = 3602879701896397 / 2 ^ 55"
proof -
  have "b64 (3602879701896397 / 2 ^ 55) = of_int (round_half_even ((3602879701896397 / 2 ^ 55) / 2 powr of_int (-4 - 52))) * 2 powr of_int (-4 - 52)"
    by (rule b64_eval) (simp_all add: powr_minus)
  also have "(3602879701896397 / 2 ^ 55) / 2 powr of_int (-4 - 52) = real_of_int 7205759403792794"
    by (simp add: powr_minus powr_numeral)
  finally show ?thesis by (simp only: rhe_of_int) (simp add: powr_minus powr_numeral)
qed

text \<open>The three additions of the score at all ones: 0.5 + 0.2, then 0.2 more, then 0.1
  more, each rounded.\<close>

lemma sum_step1: "b64 (1 / 2 + 3602879701896397 / 2 ^ 54) = 6305039478318694 / 2 ^ 53"
proof -
  have "b64 (1 / 2 + 3602879701896397 / 2 ^ 54) = of_int (round_half_even ((1 / 2 + 3602879701896397 / 2 ^ 54) / 2 powr of_int (-1 - 52))) * 2 powr of_int (-1 - 52)"
    by (rule b64_eval) (simp_all add: powr_minus)
  also have "\<dots> = 6305039478318694 / 2 ^ 53"
    by (simp add: powr_minus round_half_even_def Let_def powr_numeral divide_simps)
  finally show ?thesis .
qed

lemma sum_step2: "b64 (6305039478318694 / 2 ^ 53 + 3602879701896397 / 2 ^ 54) = 8106479329266892 / 2 ^ 53"
proof -
  have "b64 (6305039478318694 / 2 ^ 53 + 3602879701896397 / 2 ^ 54) = of_int (round_half_even ((6305039478318694 / 2 ^ 53 + 3602879701896397 / 2 ^ 54) / 2 powr of_int (-1 - 52))) * 2 powr of_int (-1 - 52)"
    by (rule b64_eval) (simp_all add: powr_minus)
  also have "\<dots> = 8106479329266892 / 2 ^ 53"
    by (simp add: powr_minus round_half_even_def Let_def powr_numeral divide_simps)
  finally show ?thesis .
qed

lemma sum_step3: "b64 (8106479329266892 / 2 ^ 53 + 3602879701896397 / 2 ^ 55) = 9007199254740991 / 2 ^ 53"
proof -
  have "b64 (8106479329266892 / 2 ^ 53 + 3602879701896397 / 2 ^ 55) = of_int (round_half_even ((8106479329266892 / 2 ^ 53 + 3602879701896397 / 2 ^ 55) / 2 powr of_int (-1 - 52))) * 2 powr of_int (-1 - 52)"
    by (rule b64_eval) (simp_all add: powr_minus)
  also have "\<dots> = 9007199254740991 / 2 ^ 53"
    by (simp add: powr_minus round_half_even_def Let_def powr_numeral divide_simps)
  finally show ?thesis .
qed


lemma default_weights_values:
  "weight default_weights ''vector'' = 1 / 2"
  "weight default_weights ''color'' = b64 (1 / 5)"
  "weight default_weights ''category'' = b64 (1 / 5)"
  "weight default_weights ''text'' = b64 (1 / 10)"
  by (simp_all add: weight_def default_weights_def b64_half)

lemma compute_final_score_default:
  "compute_final_score (Some v) c g t None
     = max 0 (min 1 (fadd (fadd (fadd (fmul (1 / 2) v) (fmul (b64 (1 / 5)) c))
                                (fmul (b64 (1 / 5)) g))
                          (fmul (b64 (1 / 10)) t)))"
  by (simp add: compute_final_score_def effective_weights_def default_weights_values)

lemma compute_final_score_None:
  "compute_final_score None c g t w = compute_final_score (Some 0) c g t w"
  by (simp add: compute_final_score_def)

lemma weighted_sum_ones:
  "fadd (fadd (fadd (fmul (1 / 2) 1) (fmul (b64 (1 / 5)) 1)) (fmul (b64 (1 / 5)) 1))
        (fmul (b64 (1 / 10)) 1) = 9007199254740991 / 2 ^ 53"
  by (simp only: fmul_def fadd_def mult_1_right b64_half b64_fifth b64_tenth
        b64_fifth_fixed b64_tenth_fixed sum_step1 sum_step2 sum_step3)

lemma compute_final_score_ones: "compute_final_score (Some 1) 1 1 1 None = 1 - 1 / 2 ^ 53"
  unfolding compute_final_score_default weighted_sum_ones by simp

lemma compute_final_score_zeros: "compute_final_score (Some 0) 0 0 0 None = 0"
  by (simp add: compute_final_score_default fadd_def fmul_def b64_zero)

lemma fifth_nonneg: "0 \<le> b64 (1 / 5)" "0 \<le> b64 (1 / 10)"
  by (simp_all add: b64_fifth b64_tenth)

lemma compute_final_score_mono:
  assumes "v \<le> v'" "c \<le> c'" "g \<le> g'" "t \<le> t'"
  shows "compute_final_score (Some v) c g t None \<le> compute_final_score (Some v') c' g' t' None"
proof -
  have 1: "fmul (1 / 2) v \<le> fmul (1 / 2) v'"
    unfolding fmul_def using assms(1) by (intro b64_mono) simp
  have 2: "fmul (b64 (1 / 5)) c \<le> fmul (b64 (1 / 5)) c'"
    unfolding fmul_def using assms(2) fifth_nonneg by (intro b64_mono mult_left_mono)
  have 3: "fmul (b64 (1 / 5)) g \<le> fmul (b64 (1 / 5)) g'"
    unfolding fmul_def using assms(3) fifth_nonneg by (intro b64_mono mult_left_mono)
  have 4: "fmul (b64 (1 / 10)) t \<le> fmul (b64 (1 / 10)) t'"
    unfolding fmul_def using assms(4) fifth_nonneg by (intro b64_mono mult_left_mono)
  have add: "fadd a b \<le> fadd a' b'" if "a \<le> a'" "b \<le> b'" for a a' b b' :: real
    unfolding fadd_def using that by (intro b64_mono add_mono)
  have "fadd (fadd (fadd (fmul (1 / 2) v) (fmul (b64 (1 / 5)) c)) (fmul (b64 (1 / 5)) g))
             (fmul (b64 (1 / 10)) t)
        \<le> fadd (fadd (fadd (fmul (1 / 2) v') (fmul (b64 (1 / 5)) c')) (fmul (b64 (1 / 5)) g'))
             (fmul (b64 (1 / 10)) t')"
    by (intro add 1 2 3 4)
  then show ?thesis unfolding compute_final_score_default by linarith
qed


lemma clamp_lipschitz:
  "\<bar>max 0 (min 1 (x::real)) - max 0 (min 1 y)\<bar> \<le> \<bar>x - y\<bar>"
  by (auto simp: max_def min_def)

lemma b64_err_bound: "\<bar>x\<bar> \<le> B \<Longrightarrow> \<bar>b64 x - x\<bar> \<le> B / 2 ^ 53"
  using b64_rel_err[of x] divide_right_mono[of "\<bar>x\<bar>" B "2 ^ 53"] by simp

lemma compute_final_score_close:
  assumes "\<bar>v\<bar> \<le> 1" "\<bar>c\<bar> \<le> 1" "\<bar>g\<bar> \<le> 1" "\<bar>t\<bar> \<le> 1"
  shows "\<bar>compute_final_score (Some v) c g t None
           - max 0 (min 1 (v / 2 + c / 5 + g / 5 + t / 10))\<bar> \<le> 1 / 2 ^ 50"
proof -
  have pw: "(2::real) ^ 50 = 1125899906842624" "(2::real) ^ 53 = 9007199254740992"
    "(2::real) ^ 54 = 18014398509481984" "(2::real) ^ 55 = 36028797018963968"
    by simp_all
  define a1 where "a1 = fmul (1 / 2) v"
  define a2 where "a2 = fmul (b64 (1 / 5)) c"
  define a3 where "a3 = fmul (b64 (1 / 5)) g"
  define a4 where "a4 = fmul (b64 (1 / 10)) t"
  define s1 where "s1 = fadd a1 a2"
  define s2 where "s2 = fadd s1 a3"
  define s3 where "s3 = fadd s2 a4"
  have e1: "\<bar>a1 - v / 2\<bar> \<le> 1 / 2 ^ 54"
    using b64_rel_err[of "1 / 2 * v"] assms(1) unfolding pw a1_def fmul_def pw by linarith
  have e2: "\<bar>a2 - c / 5\<bar> \<le> 1 / 2 ^ 54"
    using b64_rel_err[of "3602879701896397 / 2 ^ 54 * c"] assms(2)
    unfolding pw a2_def fmul_def b64_fifth pw by linarith
  have e3: "\<bar>a3 - g / 5\<bar> \<le> 1 / 2 ^ 54"
    using b64_rel_err[of "3602879701896397 / 2 ^ 54 * g"] assms(3)
    unfolding pw a3_def fmul_def b64_fifth pw by linarith
  have e4: "\<bar>a4 - t / 10\<bar> \<le> 1 / 2 ^ 54"
    using b64_rel_err[of "3602879701896397 / 2 ^ 55 * t"] assms(4)
    unfolding pw a4_def fmul_def b64_tenth pw by linarith
  have b1: "\<bar>a1 + a2\<bar> \<le> 1" using e1 e2 assms(1,2) unfolding pw by linarith
  have r1: "\<bar>s1 - (a1 + a2)\<bar> \<le> 1 / 2 ^ 53"
    using b64_err_bound[OF b1] unfolding s1_def fadd_def by simp
  have f1: "\<bar>s1 - (v / 2 + c / 5)\<bar> \<le> 2 / 2 ^ 53"
    using r1 e1 e2 unfolding pw by linarith
  have b2: "\<bar>s1 + a3\<bar> \<le> 1" using f1 e3 assms(1,2,3) unfolding pw by linarith
  have r2: "\<bar>s2 - (s1 + a3)\<bar> \<le> 1 / 2 ^ 53"
    using b64_err_bound[OF b2] unfolding s2_def fadd_def by simp
  have f2: "\<bar>s2 - (v / 2 + c / 5 + g / 5)\<bar> \<le> 4 / 2 ^ 53"
    using r2 f1 e3 unfolding pw by linarith
  have b3: "\<bar>s2 + a4\<bar> \<le> 2" using f2 e4 assms unfolding pw by linarith
  have r3: "\<bar>s3 - (s2 + a4)\<bar> \<le> 2 / 2 ^ 53"
    using b64_err_bound[OF b3] unfolding s3_def fadd_def by simp
  have f3: "\<bar>s3 - (v / 2 + c / 5 + g / 5 + t / 10)\<bar> \<le> 8 / 2 ^ 53"
    using r3 f2 e4 unfolding pw by linarith
  have "compute_final_score (Some v) c g t None = max 0 (min 1 s3)"
    unfolding compute_final_score_default s3_def s2_def s1_def a1_def a2_def a3_def a4_def ..
  then show ?thesis
    using clamp_lipschitz[of s3 "v / 2 + c / 5 + g / 5 + t / 10"] f3 unfolding pw by linarith
qed

text \<open>
  Claim C4, as the code has it. With the default weights \<^verbatim>\<open>compute_final_score\<close> is the
  weighted sum \<open>0.5 v + 0.2 c + 0.2 g + 0.1 t\<close> evaluated from left to right in binary64,
  every product and every sum rounded, and clamped to \<open>[0, 1]\<close> (a missing vector
  similarity counts as 0). For components between -1 and 1 it lies within \<open>2^-50\<close> of
  the exact clamped sum. At all zeros it is 0; at all ones it is \<open>1 - 2^-53\<close>, the float
  printed as 0.9999999999999999. It is non-decreasing in every component.
\<close>

theorem compute_final_score_binary64:
  "compute_final_score (Some v) c g t None
     = max 0 (min 1 (fadd (fadd (fadd (fmul (1 / 2) v) (fmul (b64 (1 / 5)) c))
                                (fmul (b64 (1 / 5)) g))
                          (fmul (b64 (1 / 10)) t)))
   \<and> compute_final_score None c g t None = compute_final_score (Some 0) c g t None
   \<and> (\<bar>v\<bar> \<le> 1 \<and> \<bar>c\<bar> \<le> 1 \<and> \<bar>g\<bar> \<le> 1 \<and> \<bar>t\<bar> \<le> 1 \<longrightarrow>
        \<bar>compute_final_score (Some v) c g t None
           - max 0 (min 1 (v / 2 + c / 5 + g / 5 + t / 10))\<bar> \<le> 1 / 2 ^ 50)
   \<and> compute_final_score (Some 0) 0 0 0 None = 0
   \<and> compute_final_score (Some 1) 1 1 1 None = 1 - 1 / 2 ^ 53
   \<and> (v \<le> v' \<and> c \<le> c' \<and> g \<le> g' \<and> t \<le> t' \<longrightarrow>
        compute_final_score (Some v) c g t None \<le> compute_final_score (Some v') c' g' t' None)"
  using compute_final_score_default[of v c g t] compute_final_score_None[of c g t None]
    compute_final_score_close[of v c g t] compute_final_score_zeros compute_final_score_ones
    compute_final_score_mono[of v v' c c' g g' t t']
  by blast

theorem compute_final_score_binary64_witness:
  "\<bar>compute_final_score (Some 0) 0 0 0 None - max 0 (min 1 (0 / 2 + 0 / 5 + 0 / 5 + 0 / 10))\<bar>
     \<le> 1 / 2 ^ 50
   \<and> compute_final_score (Some 0) 0 0 0 None \<le> compute_final_score (Some 1) 1 1 1 None"
proof -
  have h1: "\<bar>0::real\<bar> \<le> 1 \<and> \<bar>0::real\<bar> \<le> 1 \<and> \<bar>0::real\<bar> \<le> 1 \<and> \<bar>0::real\<bar> \<le> 1" by simp
  have h2: "(0::real) \<le> 1 \<and> (0::real) \<le> 1 \<and> (0::real) \<le> 1 \<and> (0::real) \<le> 1" by simp
  from compute_final_score_binary64[of 0 0 0 0 1 1 1 1] h1 h2 show ?thesis by blast
qed

text \<open>The score at all ones is not 1.0.\<close>

theorem compute_final_score_ones_counterexample:
  "compute_final_score (Some 1) 1 1 1 None \<noteq> 1"
  by (simp add: compute_final_score_ones)


section \<open>Text similarity\<close>

lemma set_alist_update: "set (AList.update k v al) \<subseteq> insert (k, v) (set al)"
  by (induct al) auto

lemma bow_step_invariant:
  assumes "distinct (map fst freq)" "\<forall>p \<in> set freq. 1 \<le> snd p"
  shows "distinct (map fst (bow_step freq t))" "\<forall>p \<in> set (bow_step freq t). 1 \<le> snd p"
proof -
  show "distinct (map fst (bow_step freq t))"
    using assms(1) by (simp add: bow_step_def distinct_update)
  have v: "1 \<le> (case map_of freq t of None \<Rightarrow> 0 | Some n \<Rightarrow> n) + 1"
    using assms(2) by (auto split: option.splits dest!: map_of_SomeD)
  show "\<forall>p \<in> set (bow_step freq t). 1 \<le> snd p"
    using set_alist_update[of t _ freq] v assms(2) unfolding bow_step_def by fastforce
qed

lemma foldl_bow_step_invariant:
  "distinct (map fst freq) \<Longrightarrow> \<forall>p \<in> set freq. 1 \<le> snd p \<Longrightarrow>
     distinct (map fst (foldl bow_step freq ts)) \<and> (\<forall>p \<in> set (foldl bow_step freq ts). 1 \<le> snd p)"
proof (induction ts arbitrary: freq)
  case Nil
  then show ?case by simp
next
  case (Cons t ts)
  show ?case
    using Cons.IH[OF bow_step_invariant[OF Cons.prems]] by simp
qed

lemma bow_invariant: "distinct (map fst (bow text))" "\<forall>p \<in> set (bow text). 1 \<le> snd p"
  using foldl_bow_step_invariant[of "[]" "tokenize text"] by (simp_all add: bow_def)

lemma bow_step_nonempty: "bow_step freq t \<noteq> []"
  by (simp add: bow_step_def)

lemma foldl_bow_step_nonempty: "freq \<noteq> [] \<Longrightarrow> foldl bow_step freq ts \<noteq> []"
  by (induction ts arbitrary: freq) (simp_all add: bow_step_nonempty)

lemma bow_empty_iff: "bow text = [] \<longleftrightarrow> tokenize text = []"
  unfolding bow_def
  by (cases "tokenize text") (simp_all add: foldl_bow_step_nonempty bow_step_nonempty)

text \<open>The dot product as a sum over the keys of the first dict, a key that is absent
  from a dict counting as 0 there.\<close>

lemma dict_dot_as_sum:
  assumes "distinct (map fst a)"
  shows "dict_dot a b
           = (\<Sum>k \<in> fst ` set a. (case map_of a k of None \<Rightarrow> 0 | Some v \<Rightarrow> v)
                                 * (case map_of b k of None \<Rightarrow> 0 | Some v \<Rightarrow> v))"
proof -
  have da: "distinct a" using assms by (rule distinct_map[THEN iffD1, THEN conjunct1])
  have inj: "inj_on fst (set a)" using assms by (simp add: distinct_map)
  have "dict_dot a b = (\<Sum>p \<in> set a. (case map_of b (fst p) of None \<Rightarrow> 0
                                          | Some vb \<Rightarrow> if vb \<noteq> 0 then snd p * vb else 0))"
    unfolding dict_dot_def using da
    by (simp add: sum_list_distinct_conv_sum_set case_prod_unfold)
  also have "\<dots> = (\<Sum>p \<in> set a. (case map_of a (fst p) of None \<Rightarrow> 0 | Some v \<Rightarrow> v)
                                 * (case map_of b (fst p) of None \<Rightarrow> 0 | Some v \<Rightarrow> v))"
  proof (rule sum.cong[OF refl])
    fix p assume "p \<in> set a"
    then have "map_of a (fst p) = Some (snd p)"
      using assms map_of_is_SomeI[of a "fst p" "snd p"] by simp
    then show "(case map_of b (fst p) of None \<Rightarrow> 0
                 | Some vb \<Rightarrow> if vb \<noteq> 0 then snd p * vb else 0)
             = (case map_of a (fst p) of None \<Rightarrow> 0 | Some v \<Rightarrow> v)
               * (case map_of b (fst p) of None \<Rightarrow> 0 | Some v \<Rightarrow> v)"
      by (simp split: option.splits)
  qed
  also have "\<dots> = (\<Sum>k \<in> fst ` set a. (case map_of a k of None \<Rightarrow> 0 | Some v \<Rightarrow> v)
                                 * (case map_of b k of None \<Rightarrow> 0 | Some v \<Rightarrow> v))"
    using inj by (simp add: sum.reindex)
  finally show ?thesis .
qed

lemma dict_dot_commute:
  assumes "distinct (map fst a)" "distinct (map fst b)"
  shows "dict_dot a b = dict_dot b a"
proof -
  let ?va = "\<lambda>k. case map_of a k of None \<Rightarrow> 0 | Some v \<Rightarrow> (v::int)"
  let ?vb = "\<lambda>k. case map_of b k of None \<Rightarrow> 0 | Some v \<Rightarrow> (v::int)"
  have za: "?va k = 0" if "k \<notin> fst ` set a" for k
    using that by (simp add: map_of_eq_None_iff[THEN iffD2])
  have zb: "?vb k = 0" if "k \<notin> fst ` set b" for k
    using that by (simp add: map_of_eq_None_iff[THEN iffD2])
  have "dict_dot a b = (\<Sum>k \<in> fst ` set a. ?va k * ?vb k)"
    using assms(1) by (rule dict_dot_as_sum)
  also have "\<dots> = (\<Sum>k \<in> fst ` set a \<union> fst ` set b. ?va k * ?vb k)"
    by (rule sum.mono_neutral_left) (auto simp: za)
  also have "\<dots> = (\<Sum>k \<in> fst ` set b. ?va k * ?vb k)"
    by (rule sum.mono_neutral_right) (auto simp: zb)
  also have "\<dots> = (\<Sum>k \<in> fst ` set b. ?vb k * ?va k)"
    by (simp add: mult.commute)
  also have "\<dots> = dict_dot b a"
    using assms(2) by (rule dict_dot_as_sum[symmetric])
  finally show ?thesis .
qed

lemma dict_dot_self:
  assumes "distinct (map fst a)"
  shows "dict_dot a a = (\<Sum>(k, v) \<leftarrow> a. v * v)"
proof -
  have "(case map_of a k of None \<Rightarrow> 0 | Some vb \<Rightarrow> if vb \<noteq> 0 then v * vb else 0) = v * v"
    if "(k, v) \<in> set a" for k v
    using that assms map_of_is_SomeI[of a k v] by simp
  then show ?thesis unfolding dict_dot_def
    by (intro arg_cong[where f = sum_list] map_cong refl) auto
qed

lemma cosine_sim_commute:
  assumes "distinct (map fst a)" "distinct (map fst b)"
  shows "cosine_sim a b = cosine_sim b a"
  by (simp add: cosine_sim_def Let_def dict_dot_commute[OF assms] fmul_def mult.commute disj_commute)

lemma text_similarity_commute: "text_similarity q1 q2 = text_similarity q2 q1"
  by (simp add: text_similarity_def cosine_sim_commute[OF bow_invariant(1) bow_invariant(1)] disj_commute)


lemma b64_rel_pos:
  assumes "0 < x"
  shows "x * (1 - 1 / 2 ^ 53) \<le> b64 x" "b64 x \<le> x * (1 + 1 / 2 ^ 53)"
proof -
  have e: "\<bar>b64 x - x\<bar> \<le> x / 9007199254740992"
    using b64_rel_err[of x] assms by simp
  then have e': "x - b64 x \<le> x / 9007199254740992" "b64 x - x \<le> x / 9007199254740992"
    by linarith+
  show "x * (1 - 1 / 2 ^ 53) \<le> b64 x" using e'(1) by (simp add: algebra_simps)
  show "b64 x \<le> x * (1 + 1 / 2 ^ 53)" using e'(2) by (simp add: algebra_simps)
qed

lemma self_ratio_bound:
  assumes "0 < N"
  shows "\<bar>fdiv N (fmul (fsqrt N) (fsqrt N)) - 1\<bar> \<le> 1 / 2 ^ 50"
proof -
  define u :: real where "u = 1 / 2 ^ 53"
  have u: "0 < u" "u < 1" by (simp_all add: u_def)
  define r where "r = sqrt N"
  have r: "0 < r" "r * r = N" using assms by (simp_all add: r_def)
  define s where "s = b64 r"
  have s: "r * (1 - u) \<le> s" "s \<le> r * (1 + u)"
    unfolding s_def u_def using b64_rel_pos[OF r(1)] by simp_all
  have spos: "0 < s" unfolding s_def using r(1) by (rule b64_pos)
  have ss_lo: "N * ((1 - u) * (1 - u)) \<le> s * s"
  proof -
    have "(r * (1 - u)) * (r * (1 - u)) \<le> s * s"
      using s(1) r(1) u spos by (intro mult_mono) simp_all
    moreover have "(r * (1 - u)) * (r * (1 - u)) = N * ((1 - u) * (1 - u))"
      unfolding r(2)[symmetric] by (simp add: algebra_simps)
    ultimately show ?thesis by simp
  qed
  have ss_hi: "s * s \<le> N * ((1 + u) * (1 + u))"
  proof -
    have "s * s \<le> (r * (1 + u)) * (r * (1 + u))"
      using s(2) spos r(1) u by (intro mult_mono) simp_all
    moreover have "(r * (1 + u)) * (r * (1 + u)) = N * ((1 + u) * (1 + u))"
      unfolding r(2)[symmetric] by (simp add: algebra_simps)
    ultimately show ?thesis by simp
  qed
  define p where "p = b64 (s * s)"
  have sspos: "0 < s * s" using spos by simp
  have p: "s * s * (1 - u) \<le> p" "p \<le> s * s * (1 + u)"
    unfolding p_def u_def using b64_rel_pos[OF sspos] by simp_all
  have ppos: "0 < p" unfolding p_def using sspos by (rule b64_pos)
  have p_lo: "N * ((1 - u) * (1 - u) * (1 - u)) \<le> p"
  proof -
    have "N * ((1 - u) * (1 - u)) * (1 - u) \<le> s * s * (1 - u)"
      using ss_lo u by (intro mult_right_mono) simp_all
    then show ?thesis using p(1) by (simp add: mult.assoc)
  qed
  have p_hi: "p \<le> N * ((1 + u) * (1 + u) * (1 + u))"
  proof -
    have "s * s * (1 + u) \<le> N * ((1 + u) * (1 + u)) * (1 + u)"
      using ss_hi u by (intro mult_right_mono) simp_all
    then show ?thesis using p(2) by (simp add: mult.assoc)
  qed
  define y where "y = N / p"
  have ypos: "0 < y" unfolding y_def using assms ppos by simp
  have lo3: "0 < (1 - u) * (1 - u) * (1 - u)" using u by simp
  have hi3: "0 < (1 + u) * (1 + u) * (1 + u)" using u by simp
  have y_hi: "y \<le> 1 / ((1 - u) * (1 - u) * (1 - u))"
  proof -
    have "N / p \<le> N / (N * ((1 - u) * (1 - u) * (1 - u)))"
      using p_lo assms lo3 ppos by (intro divide_left_mono) simp_all
    then show ?thesis unfolding y_def using assms by simp
  qed
  have y_lo: "1 / ((1 + u) * (1 + u) * (1 + u)) \<le> y"
  proof -
    have "N / (N * ((1 + u) * (1 + u) * (1 + u))) \<le> N / p"
      using p_hi assms ppos hi3 by (intro divide_left_mono) simp_all
    then show ?thesis unfolding y_def using assms by simp
  qed
  define res where "res = b64 y"
  have res: "y * (1 - u) \<le> res" "res \<le> y * (1 + u)"
    unfolding res_def u_def using b64_rel_pos[OF ypos] by simp_all
  have res_hi: "res \<le> 1 / ((1 - u) * (1 - u) * (1 - u)) * (1 + u)"
  proof -
    have "y * (1 + u) \<le> 1 / ((1 - u) * (1 - u) * (1 - u)) * (1 + u)"
      using y_hi u by (intro mult_right_mono) simp_all
    then show ?thesis using res(2) by linarith
  qed
  have res_lo: "1 / ((1 + u) * (1 + u) * (1 + u)) * (1 - u) \<le> res"
  proof -
    have "1 / ((1 + u) * (1 + u) * (1 + u)) * (1 - u) \<le> y * (1 - u)"
      using y_lo u by (intro mult_right_mono) simp_all
    then show ?thesis using res(1) by linarith
  qed
  have n_hi: "1 / ((1 - u) * (1 - u) * (1 - u)) * (1 + u) \<le> 1 + 1 / 2 ^ 50"
    unfolding u_def by (simp add: field_simps)
  have n_lo: "1 - 1 / 2 ^ 50 \<le> 1 / ((1 + u) * (1 + u) * (1 + u)) * (1 - u)"
    unfolding u_def by (simp add: field_simps)
  have eq: "fdiv N (fmul (fsqrt N) (fsqrt N)) = res"
    by (simp add: res_def y_def p_def s_def r_def fdiv_def fmul_def fsqrt_def)
  have "res \<le> 1 + 1 / 2 ^ 50" using res_hi n_hi by (rule order_trans)
  moreover have "1 - 1 / 2 ^ 50 \<le> res" using n_lo res_lo by (rule order_trans)
  ultimately have "\<bar>res - 1\<bar> \<le> 1 / 2 ^ 50" by (simp only: abs_le_iff) linarith
  then show ?thesis unfolding eq .
qed


lemma sum_squares_pos:
  assumes "freq \<noteq> []" "\<forall>p \<in> set freq. 1 \<le> snd p"
  shows "1 \<le> (\<Sum>(k, v) \<leftarrow> freq. v * (v::int))"
proof -
  obtain p ps where freq: "freq = p # ps" using assms(1) by (cases freq) auto
  have "0 \<le> (\<Sum>(k, v) \<leftarrow> ps. v * v)" by (rule sum_list_nonneg) auto
  moreover have "1 \<le> snd p * snd p"
    using assms(2) freq by (simp add: mult_le_cancel_left1 order_trans[of 1 "snd p"])
  ultimately show ?thesis unfolding freq by (simp add: case_prod_unfold)
qed

lemma text_similarity_no_token:
  assumes "tokenize q = []"
  shows "text_similarity (Some q) t = 0" "text_similarity t (Some q) = 0"
  using assms by (simp_all add: text_similarity_def cosine_sim_def bow_empty_iff)

lemma text_similarity_falsy:
  assumes "\<not> truthy q1 \<or> \<not> truthy q2"
  shows "text_similarity q1 q2 = 0"
  using assms by (auto simp: text_similarity_def)

lemma text_similarity_self:
  assumes "tokenize q \<noteq> []"
  shows "\<bar>text_similarity (Some q) (Some q) - 1\<bar> \<le> 1 / 2 ^ 50"
proof -
  define n where "n = (\<Sum>(k, v) \<leftarrow> bow q. v * v)"
  define N where "N = float_of_int n"
  have qne: "q \<noteq> []" using assms by (auto simp: tokenize_def)
  have bne: "bow q \<noteq> []" using assms by (simp add: bow_empty_iff)
  have n1: "1 \<le> n" unfolding n_def using bne bow_invariant(2) by (rule sum_squares_pos)
  have "b64 1 \<le> b64 (of_int n)" using n1 by (intro b64_mono) simp
  then have Npos: "0 < N" unfolding N_def float_of_int_def b64_one by simp
  have "0 < sqrt N" using Npos by simp
  then have npos: "0 < fsqrt N" unfolding fsqrt_def by (rule b64_pos)
  have norm: "dict_norm (bow q) = fsqrt N" by (simp add: dict_norm_def N_def n_def)
  have dot: "dict_dot (bow q) (bow q) = n"
    unfolding n_def using bow_invariant(1) by (rule dict_dot_self)
  have "text_similarity (Some q) (Some q) = fdiv N (fmul (fsqrt N) (fsqrt N))"
    using qne bne npos by (simp add: text_similarity_def cosine_sim_def Let_def norm dot N_def)
  then show ?thesis using self_ratio_bound[OF Npos] by simp
qed

text \<open>
  Claim C8, as the code has it. \<^verbatim>\<open>text_similarity\<close> is symmetric; it is 0 when either
  argument is missing or empty; for a text without any token of \<^verbatim>\<open>[a-z0-9]+\<close> after
  lowercasing the similarity with itself is 0; for a text with at least one token the
  similarity with itself is 1.0 up to the rounding of the square roots, the product
  and the quotient, within \<open>2^-50\<close>.
\<close>

theorem text_similarity_properties:
  "text_similarity q1 q2 = text_similarity q2 q1
   \<and> (\<not> truthy q1 \<or> \<not> truthy q2 \<longrightarrow> text_similarity q1 q2 = 0)
   \<and> (tokenize q = [] \<longrightarrow> text_similarity (Some q) (Some q) = 0)
   \<and> (tokenize q' \<noteq> [] \<longrightarrow> \<bar>text_similarity (Some q') (Some q') - 1\<bar> \<le> 1 / 2 ^ 50)"
  using text_similarity_commute[of q1 q2] text_similarity_falsy[of q1 q2]
    text_similarity_no_token(1)[of q "Some q"] text_similarity_self[of q']
  by blast

theorem text_similarity_properties_witness:
  "text_similarity None (Some ''x'') = 0
   \<and> text_similarity (Some ''?'') (Some ''?'') = 0
   \<and> \<bar>text_similarity (Some ''a'') (Some ''a'') - 1\<bar> \<le> 1 / 2 ^ 50"
proof -
  have h1: "\<not> truthy None \<or> \<not> truthy (Some ''x'')" by simp
  have h2: "tokenize ''?'' = []" by code_simp
  have h3: "tokenize ''a'' \<noteq> []" by code_simp
  from text_similarity_properties[of None "Some ''x''" "''?''" "''a''"] h1 h2 h3
  show ?thesis by blast
qed

text \<open>A non-empty text without a token: its similarity with itself is 0.\<close>

theorem text_similarity_self_counterexample:
  "''!!!'' \<noteq> [] \<and> text_similarity (Some ''!!!'') (Some ''!!!'') = 0
   \<and> text_similarity (Some ''!!!'') (Some ''!!!'') \<noteq> 1"
proof -
  have "tokenize ''!!!'' = []" by code_simp
  then show ?thesis by (simp add: text_similarity_no_token)
qed

section \<open>Re-ranking: order, stability and frame\<close>

lemma result_score_score_result:
  "fst (score_result qt qc qg w asf adb rd) = result_score qt qc qg w rd"
  by (simp add: score_result_def result_score_def Let_def)

lemma result_score_annotated:
  "result_score qt qc qg w (snd (score_result qt qc qg w asf adb rd)) = result_score qt qc qg w rd"
  by (simp add: score_result_def result_score_def Let_def)

lemma sort_key_reverse_sorted:
  "sorted_wrt (\<lambda>a b. f b \<le> f a) (sort_key_reverse f xs)"
proof -
  have "sorted (map f (sort_key f (rev xs)))" by (rule sorted_sort_key)
  then have "sorted_wrt (\<lambda>a b. f a \<le> f b) (sort_key f (rev xs))" by (simp add: sorted_map)
  then show ?thesis by (simp add: sort_key_reverse_def sorted_wrt_rev)
qed

lemma sort_key_reverse_stable:
  "filter (\<lambda>y. f y = k) (sort_key_reverse f xs) = filter (\<lambda>y. f y = k) xs"
proof -
  have "filter (\<lambda>y. f y = k) (sort_key_reverse f xs)
          = rev (filter (\<lambda>y. f y = k) (sort_key f (rev xs)))"
    by (simp add: sort_key_reverse_def rev_filter)
  also have "\<dots> = rev (filter (\<lambda>y. f y = k) (rev xs))" by (simp only: sort_key_stable)
  also have "\<dots> = filter (\<lambda>y. f y = k) xs" by (simp add: rev_filter)
  finally show ?thesis .
qed

lemma mset_sort_key_reverse: "mset (sort_key_reverse f xs) = mset xs"
  by (simp add: sort_key_reverse_def)

lemma scored_snd_sorted:
  assumes "\<And>x. x \<in> set xs \<Longrightarrow> fst x = g (snd x)"
  shows "sorted_wrt (\<lambda>a b. g b \<le> g a) (map snd (sort_key_reverse fst xs))"
proof -
  have "sorted_wrt (\<lambda>a b. fst b \<le> fst a) (sort_key_reverse fst xs)"
    by (rule sort_key_reverse_sorted)
  moreover have "set (sort_key_reverse fst xs) = set xs"
    by (metis mset_sort_key_reverse set_mset_mset)
  ultimately have "sorted_wrt (\<lambda>a b. g (snd b) \<le> g (snd a)) (sort_key_reverse fst xs)"
    using assms by (auto elim!: sorted_wrt_mono_rel[rotated])
  then show ?thesis by (simp add: sorted_wrt_map)
qed


lemma rerank_results_alt:
  "rerank_results results qt qc qg w asf adb
     = map snd (sort_key_reverse fst
         (map (score_result qt qc qg w asf adb) (map result_to_dict results)))"
  by (simp add: rerank_results_def Let_def comp_def)

lemma mset_rerank_results:
  "mset (rerank_results results qt qc qg w asf adb)
     = mset (map (\<lambda>rd. snd (score_result qt qc qg w asf adb rd)) (map result_to_dict results))"
proof -
  let ?ds = "map result_to_dict results"
  have "mset (map snd (sort_key_reverse fst (map (score_result qt qc qg w asf adb) ?ds)))
          = image_mset snd (mset (map (score_result qt qc qg w asf adb) ?ds))"
    by (simp only: mset_map mset_sort_key_reverse)
  also have "\<dots> = mset (map (\<lambda>rd. snd (score_result qt qc qg w asf adb rd)) ?ds)"
    by (simp add: multiset.map_comp comp_def)
  finally show ?thesis unfolding rerank_results_alt .
qed




text \<open>
  Claim C5. For every list of candidates, dicts or objects (and every query, weights and
  flags), \<^verbatim>\<open>rerank_results\<close> returns the results in descending order of their score; the
  results of any one score come out in the order in which they came in, each being the
  scored dict of its input; and with \<^verbatim>\<open>add_score_field\<close> the field \<^verbatim>\<open>final_score\<close> of every
  returned result holds that score, so the list is in descending order of
  \<^verbatim>\<open>final_score\<close>.
\<close>

theorem rerank_results_sorted_stable:
  "sorted_wrt (\<lambda>a b. result_score qt qc qg w b \<le> result_score qt qc qg w a)
     (rerank_results results qt qc qg w asf adb)
   \<and> (\<forall>s. filter (\<lambda>r. result_score qt qc qg w r = s)
              (rerank_results results qt qc qg w asf adb)
            = map (\<lambda>rd. snd (score_result qt qc qg w asf adb rd))
                (filter (\<lambda>r. result_score qt qc qg w r = s) (map result_to_dict results)))
   \<and> map rd_final_score (rerank_results results qt qc qg w True adb)
       = map (\<lambda>r. Some (result_score qt qc qg w r))
           (rerank_results results qt qc qg w True adb)"
proof (intro conjI allI)
  let ?sc = "result_score qt qc qg w"
  let ?ds = "map result_to_dict results"
  let ?scored = "\<lambda>asf. map (score_result qt qc qg w asf adb) ?ds"
  have fst_snd: "fst x = ?sc (snd x)" if "x \<in> set (?scored asf)" for x asf
    using that by (auto simp: result_score_score_result result_score_annotated)
  show "sorted_wrt (\<lambda>a b. ?sc b \<le> ?sc a) (rerank_results results qt qc qg w asf adb)"
    unfolding rerank_results_alt by (rule scored_snd_sorted) (rule fst_snd)
  show "filter (\<lambda>r. ?sc r = s) (rerank_results results qt qc qg w asf adb)
          = map (\<lambda>rd. snd (score_result qt qc qg w asf adb rd)) (filter (\<lambda>r. ?sc r = s) ?ds)"
    for s
  proof -
    have "filter (\<lambda>r. ?sc r = s) (rerank_results results qt qc qg w asf adb)
            = map snd (filter (\<lambda>x. ?sc (snd x) = s) (sort_key_reverse fst (?scored asf)))"
      by (simp only: rerank_results_alt filter_map comp_def)
    also have "filter (\<lambda>x. ?sc (snd x) = s) (sort_key_reverse fst (?scored asf))
                 = filter (\<lambda>x. fst x = s) (sort_key_reverse fst (?scored asf))"
      by (rule filter_cong[OF refl])
         (metis fst_snd mset_sort_key_reverse set_mset_mset)
    also have "\<dots> = filter (\<lambda>x. fst x = s) (?scored asf)" by (rule sort_key_reverse_stable)
    also have "map snd \<dots> = map (\<lambda>rd. snd (score_result qt qc qg w asf adb rd))
                               (filter (\<lambda>r. ?sc r = s) ?ds)"
      by (simp only: filter_map comp_def result_score_score_result map_map)
    finally show ?thesis .
  qed
  have "rd_final_score r = Some (?sc r)"
    if "r \<in> set (rerank_results results qt qc qg w True adb)" for r
  proof -
    from that have "r \<in># mset (rerank_results results qt qc qg w True adb)" by simp
    then have "r \<in> (\<lambda>rd. snd (score_result qt qc qg w True adb rd)) ` set ?ds"
      unfolding mset_rerank_results by (simp add: image_image)
    then obtain rd where r: "r = snd (score_result qt qc qg w True adb rd)" by blast
    have "rd_final_score r = Some (?sc rd)"
      unfolding r by (simp add: score_result_def result_score_def Let_def)
    then show ?thesis unfolding r result_score_annotated .
  qed
  then show "map rd_final_score (rerank_results results qt qc qg w True adb)
       = map (\<lambda>r. Some (?sc r)) (rerank_results results qt qc qg w True adb)"
    by simp
qed


section \<open>Experiment manager: assignments and events\<close>

lemma storage_backend_store [simp]:
  "storage_backend (store_assignment m a) = storage_backend m"
  by (simp add: store_assignment_def)

lemma get_assignment_store:
  assumes "storage_backend m = ''memory'' \<or> storage_backend m = ''redis''"
  shows "get_assignment (store_assignment m a) u
           = (if u = asg_user_id a then Some a else get_assignment m u)"
  using assms
  by (auto simp: get_assignment_def store_assignment_def update_conv' assignment_key_def)

lemma get_assignment_log_event [simp]:
  "get_assignment (log_event m e) u = get_assignment m u"
  by (simp add: get_assignment_def log_event_def)

lemma storage_backend_log_event [simp]:
  "storage_backend (log_event m e) = storage_backend m"
  by (simp add: log_event_def)

lemma assign_variant_existing:
  "get_assignment m u = Some a \<Longrightarrow> assign_variant m u md draw now = Inr (a, m)"
  by (simp add: assign_variant_def)

lemma get_assignment_Some_backend:
  "get_assignment m u = Some a \<Longrightarrow> storage_backend m = ''memory'' \<or> storage_backend m = ''redis''"
  by (auto simp: get_assignment_def split: if_splits)

lemma assign_variant_new:
  assumes "assign_variant m u md draw now = Inr (a, m')" "get_assignment m u = None"
  shows "m' = store_assignment m a" "asg_user_id a = u" "assigned_at a = now"
  using assms by (auto simp: assign_variant_def Let_def split: sum.splits if_splits)

lemma assign_variant_backend:
  assumes "assign_variant m u md draw now = Inr (a, m')"
  shows "storage_backend m' = storage_backend m"
proof (cases "get_assignment m u")
  case None
  then show ?thesis using assign_variant_new(1)[OF assms] by simp
next
  case (Some b)
  then show ?thesis using assms by (simp add: assign_variant_existing)
qed

lemma assign_variant_keeps:
  assumes "assign_variant m u md draw now = Inr (a, m')" "get_assignment m u' = Some b"
  shows "get_assignment m' u' = Some b"
proof (cases "get_assignment m u")
  case None
  then have ne: "u' \<noteq> u" using assms(2) by auto
  have "get_assignment m' u' = get_assignment m u'"
    using assign_variant_new(1,2)[OF assms(1) None] ne
      get_assignment_store[OF get_assignment_Some_backend[OF assms(2)], of a u']
    by simp
  then show ?thesis using assms(2) by simp
next
  case (Some c)
  then show ?thesis using assms by (simp add: assign_variant_existing)
qed

lemma assign_variant_stores:
  assumes "assign_variant m u md draw now = Inr (a, m')"
    "storage_backend m = ''memory'' \<or> storage_backend m = ''redis''"
  shows "get_assignment m' u = Some a"
proof (cases "get_assignment m u")
  case None
  then show ?thesis
    using assign_variant_new(1,2)[OF assms(1) None] get_assignment_store[OF assms(2), of a u]
    by simp
next
  case (Some c)
  then show ?thesis using assms by (simp add: assign_variant_existing)
qed

lemma assignment_for_keeps:
  assumes "assignment_for m u draw now = Inr (a, m')" "get_assignment m u' = Some b"
  shows "get_assignment m' u' = Some b"
  using assms assign_variant_keeps[of m u None draw now a m' u' b]
  by (auto simp: assignment_for_def split: option.splits)

lemma apply_op_keeps:
  assumes "get_assignment m u = Some a"
  shows "get_assignment (apply_op m op) u = Some a"
proof (cases op)
  case (AssignVariant u' md draw now)
  then show ?thesis using assms assign_variant_keeps[of m u' md draw now _ _ u a]
    by (auto split: sum.splits)
next
  case (LogSearch u' q n t s draw now now')
  then show ?thesis using assms assignment_for_keeps[of m u' draw now _ _ u a]
    by (auto simp: log_search_def Let_def split: sum.splits prod.splits)
next
  case (LogClick u' p pt pos q s draw now now')
  then show ?thesis using assms assignment_for_keeps[of m u' draw now _ _ u a]
    by (auto simp: log_click_def Let_def split: sum.splits prod.splits)
qed (use assms in simp_all)

lemma apply_ops_keeps:
  "get_assignment m u = Some a \<Longrightarrow> get_assignment (apply_ops m ops) u = Some a"
  unfolding apply_ops_def
  by (induction ops arbitrary: m) (simp_all add: apply_op_keeps)

text \<open>
  With the memory backend, and with Redis as long as no key expires, an assignment that
  \<^verbatim>\<open>assign_variant\<close> has created is what every later look-up and every later
  \<^verbatim>\<open>assign_variant\<close> for that user returns, whatever calls are made in between.
\<close>

theorem sticky_assignment:
  assumes "storage_backend m = ''memory'' \<or> storage_backend m = ''redis''"
    and "assign_variant m u md draw now = Inr (a, m')"
  shows "get_assignment (apply_ops m' ops) u = Some a
         \<and> assign_variant (apply_ops m' ops) u md' draw' now' = Inr (a, apply_ops m' ops)"
proof -
  have "get_assignment m' u = Some a" using assms(2,1) by (rule assign_variant_stores)
  then have "get_assignment (apply_ops m' ops) u = Some a" by (rule apply_ops_keeps)
  then show ?thesis by (simp add: assign_variant_existing)
qed


subsection \<open>The event query\<close>

lemma get_events_filter:
  "get_events m user_id variant event_type limit
     = py_slice_from (- limit)
         (filter (\<lambda>e. (\<not> truthy user_id \<or> Some (ev_user_id e) = user_id)
                      \<and> (variant = None \<or> Some (ev_variant e) = variant)
                      \<and> (\<not> truthy event_type \<or> event_type_of e = event_type))
                 (events m))"
  by (auto simp: get_events_def Let_def intro!: arg_cong[where f = "py_slice_from (- limit)"]
        filter_cong)

lemma py_slice_from_last:
  assumes "0 < limit"
  shows "py_slice_from (- limit) xs = drop (length xs - nat limit) xs"
  using assms by (simp add: py_slice_from_def nat_diff_distrib')

lemma rev_drop_last: "rev (drop (length xs - k) xs) = take k (rev xs)"
proof (cases "k \<le> length xs")
  case True
  then show ?thesis by (simp add: rev_drop)
next
  case False
  then show ?thesis by simp
qed

text \<open>
  Claim C3, as the code has it. For a limit \<open>n\<close> of at least 1, \<^verbatim>\<open>get_events\<close> returns the
  last \<open>n\<close> events of the log that pass the filters that are given (all of them when
  there are fewer), in the order in which they were logged: read backwards, the result
  is the first \<open>n\<close> matching events counted from the most recent one. It has at most
  \<open>n\<close> elements, and when the log is in ascending order of time, so is the result.
\<close>

theorem get_events_last_n:
  assumes "0 < limit"
  shows "rev (get_events m user_id variant event_type limit)
           = take (nat limit)
               (rev (filter (\<lambda>e. (\<not> truthy user_id \<or> Some (ev_user_id e) = user_id)
                                 \<and> (variant = None \<or> Some (ev_variant e) = variant)
                                 \<and> (\<not> truthy event_type \<or> event_type_of e = event_type))
                            (events m)))
         \<and> length (get_events m user_id variant event_type limit) \<le> nat limit
         \<and> (sorted (map timestamp (events m))
              \<longrightarrow> sorted (map timestamp (get_events m user_id variant event_type limit)))"
proof (intro conjI impI)
  let ?sel = "\<lambda>e. (\<not> truthy user_id \<or> Some (ev_user_id e) = user_id)
                  \<and> (variant = None \<or> Some (ev_variant e) = variant)
                  \<and> (\<not> truthy event_type \<or> event_type_of e = event_type)"
  let ?ms = "filter ?sel (events m)"
  have ge: "get_events m user_id variant event_type limit = drop (length ?ms - nat limit) ?ms"
    unfolding get_events_filter using assms by (rule py_slice_from_last)
  show "rev (get_events m user_id variant event_type limit) = take (nat limit) (rev ?ms)"
    unfolding ge by (rule rev_drop_last)
  show "length (get_events m user_id variant event_type limit) \<le> nat limit"
    unfolding ge by simp
  assume "sorted (map timestamp (events m))"
  then have "sorted (map timestamp ?ms)" by (simp add: sorted_map sorted_wrt_filter)
  then show "sorted (map timestamp (get_events m user_id variant event_type limit))"
    unfolding ge by (simp add: sorted_map sorted_wrt_drop)
qed

theorem get_events_last_n_witness:
  "get_events
     (apply_ops (ExperimentManager_init [] (1 / 2) ''memory'' True Map.empty)
        [LogSearch ''u1'' ''shoes'' 5 12 None (1 / 4) 1 1,
         LogSearch ''u2'' ''hats'' 3 15 None (3 / 4) 2 2])
     None None None 1
   = [\<lparr>ev_user_id = ''u2'', ev_variant = SEARCH_V2, timestamp = 2, query = Some ''hats'',
       session_id = None, ev_metadata = [], detail = SearchEvent 3 15 ''search''\<rparr>]"
proof -
  have ev: "events (apply_ops (ExperimentManager_init [] (1 / 2) ''memory'' True Map.empty)
        [LogSearch ''u1'' ''shoes'' 5 12 None (1 / 4) 1 1,
         LogSearch ''u2'' ''hats'' 3 15 None (3 / 4) 2 2])
     = [\<lparr>ev_user_id = ''u1'', ev_variant = SEARCH_V1, timestamp = 1, query = Some ''shoes'',
         session_id = None, ev_metadata = [], detail = SearchEvent 5 12 ''search''\<rparr>,
        \<lparr>ev_user_id = ''u2'', ev_variant = SEARCH_V2, timestamp = 2, query = Some ''hats'',
         session_id = None, ev_metadata = [], detail = SearchEvent 3 15 ''search''\<rparr>]"
    by (simp add: apply_ops_def ExperimentManager_init_def log_search_def assignment_for_def
          assign_variant_def get_assignment_def store_assignment_def variant_at_def
          log_event_def Let_def)
  have lim: "(0::int) < 1" by simp
  from get_events_last_n[OF lim,
      where m = "apply_ops (ExperimentManager_init [] (1 / 2) ''memory'' True Map.empty)
        [LogSearch ''u1'' ''shoes'' 5 12 None (1 / 4) 1 1,
         LogSearch ''u2'' ''hats'' 3 15 None (3 / 4) 2 2]"
      and user_id = None and variant = None and event_type = None]
  show ?thesis unfolding ev by (simp add: rev_singleton_conv)
qed

text \<open>Two searches logged at times 1 and 2: the query returns them oldest first, and
  with the limit 0 it returns both.\<close>

theorem get_events_order_counterexample:
  "map timestamp
     (get_events
        (apply_ops (ExperimentManager_init [] (1 / 2) ''memory'' True Map.empty)
           [LogSearch ''u1'' ''shoes'' 5 12 None (1 / 4) 1 1,
            LogSearch ''u2'' ''hats'' 3 15 None (3 / 4) 2 2])
        None None None 100)
   = [1, 2]
   \<and> length
       (get_events
          (apply_ops (ExperimentManager_init [] (1 / 2) ''memory'' True Map.empty)
             [LogSearch ''u1'' ''shoes'' 5 12 None (1 / 4) 1 1,
              LogSearch ''u2'' ''hats'' 3 15 None (3 / 4) 2 2])
          None None None 0)
     = 2"
  by (simp add: apply_ops_def ExperimentManager_init_def log_search_def assignment_for_def
        assign_variant_def get_assignment_def store_assignment_def variant_at_def
        log_event_def Let_def get_events_def py_slice_from_def)

subsection \<open>A backend that stores nothing\<close>

text \<open>
  Claim C6 at the storage backend \<^verbatim>\<open>"file"\<close>, which the constructor documents: neither
  \<^verbatim>\<open>_store_assignment\<close> nor \<^verbatim>\<open>get_assignment\<close> has a branch for it. The first
  \<^verbatim>\<open>assign_variant\<close> for a user returns an assignment and leaves the manager as it was,
  the look-up that follows finds nothing, and the second \<^verbatim>\<open>assign_variant\<close> draws again:
  another variant, another \<^verbatim>\<open>assigned_at\<close>.
\<close>

theorem assign_variant_file_backend:
  "assign_variant (ExperimentManager_init [] (1 / 2) ''file'' True Map.empty)
     ''u1'' None (3 / 10) 100
   = Inr (\<lparr>asg_user_id = ''u1'', asg_variant = SEARCH_V1, assigned_at = 100, asg_metadata = []\<rparr>,
          ExperimentManager_init [] (1 / 2) ''file'' True Map.empty)
   \<and> get_assignment (ExperimentManager_init [] (1 / 2) ''file'' True Map.empty) ''u1'' = None
   \<and> assign_variant (ExperimentManager_init [] (1 / 2) ''file'' True Map.empty)
        ''u1'' None (7 / 10) 200
     = Inr (\<lparr>asg_user_id = ''u1'', asg_variant = SEARCH_V2, assigned_at = 200, asg_metadata = []\<rparr>,
            ExperimentManager_init [] (1 / 2) ''file'' True Map.empty)"
  by (simp add: ExperimentManager_init_def assign_variant_def get_assignment_def
        store_assignment_def variant_at_def Let_def)

section \<open>Click-through rate\<close>

















section \<open>Embedding fusion\<close>















section \<open>Search variants and the endpoint\<close>


lemma variant_search_success:
  assumes "search_by_text co q k cf colf reranking dbg = Inr rs" "product_results rs = Inr prs"
  shows "variant_search reranking prefix co q k cf colf dbg ms = Inr (prs, ms)"
  using assms by (simp add: variant_search_def)


section \<open>Re-ranked search results\<close>

lemma b64_quarter: "b64 (1 / 4) = 1 / 4"
proof -
  have "b64 (1/4) = of_int (round_half_even ((1/4) / 2 powr of_int (-2 - 52))) * 2 powr of_int (-2 - 52)"
    by (rule b64_eval) (simp_all add: powr_minus)
  also have "(1/4) / 2 powr of_int (-2 - 52) = real_of_int (2 ^ 52)"
    by (simp add: powr_minus powr_numeral)
  finally show ?thesis by (simp only: rhe_of_int) (simp add: powr_minus powr_numeral)
qed

lemma compute_final_score_half: "compute_final_score (Some (1 / 2)) 0 0 0 None = 1 / 4"
  by (simp add: compute_final_score_default fadd_def fmul_def b64_zero b64_quarter)

lemma text_similarity_shoes_hat: "text_similarity (Some ''shoes'') (Some ''hat'') = 0"
proof -
  have b1: "bow ''shoes'' = [(''shoes'', 1)]" by code_simp
  have b2: "bow ''hat'' = [(''hat'', 1)]" by code_simp
  show ?thesis
    by (simp add: text_similarity_def cosine_sim_def b1 b2 dict_dot_def Let_def
          fdiv_def float_of_int_def b64_zero)
qed

lemma py_slice_to_subset: "set (py_slice_to k xs) \<subseteq> set xs"
  by (auto simp: py_slice_to_def dest: in_set_takeD)

lemma set_rerank_results:
  "set (rerank_results results qt qc qg w asf adb)
     = (\<lambda>rd. snd (score_result qt qc qg w asf adb rd)) ` set (map result_to_dict results)"
  using arg_cong[OF mset_rerank_results, of set_mset results qt qc qg w asf adb]
  by (simp add: image_image)

lemma from_reranked_scored:
  assumes "r = from_reranked (snd (score_result (Some q) colf cf None True dbg (to_dict c)))"
  shows "product_id r = product_id c \<and> title r = title c \<and> description r = description c
         \<and> color r = color c \<and> category r = category c \<and> image_path r = image_path c
         \<and> distance r = distance c
         \<and> similarity r = compute_final_score (Some (similarity c))
                             (exact_match_boost colf (color c))
                             (exact_match_boost cf (category c))
                             (text_similarity (Some q) (title c)) None
         \<and> debug_scores r
             = (if dbg
                then Some \<lparr>vector_score = similarity c,
                           color_score = exact_match_boost colf (color c),
                           category_score = exact_match_boost cf (category c),
                           text_score = text_similarity (Some q) (title c),
                           dbg_final_score = similarity r\<rparr>
                else debug_scores c)"
  unfolding assms by (simp add: from_reranked_def score_result_def to_dict_def Let_def)

lemma search_by_vector_results:
  assumes "search_by_vector co qv n cf colf = Inr initial" "c \<in> set initial"
  shows "\<exists>raws raw. weaviate_search co qv n (given_filter cf) (given_filter colf) = Inr raws
           \<and> raw \<in> set raws
           \<and> c = SearchResult_init (properties raw) (raw_similarity raw) (raw_distance raw)"
proof (cases "weaviate_search co qv n (given_filter cf) (given_filter colf)")
  case (Inl e)
  then show ?thesis using assms(1) by (simp add: search_by_vector_def)
next
  case (Inr raws)
  let ?all = "map (\<lambda>raw. SearchResult_init (properties raw) (raw_similarity raw)
                                (raw_distance raw))
                      (filter (keep_raw cf colf) raws)"
  have i: "initial = py_slice_to n ?all"
    using assms(1) Inr by (simp add: search_by_vector_def)
  have "set initial \<subseteq> set ?all" unfolding i by (rule py_slice_to_subset)
  then have "c \<in> set ?all" using assms(2) by (rule subsetD)
  then obtain raw where "raw \<in> set raws"
    "c = SearchResult_init (properties raw) (raw_similarity raw) (raw_distance raw)"
    by (auto simp only: set_map set_filter)
  then show ?thesis using Inr by (intro exI[of _ raws] exI[of _ raw]) simp
qed

lemma reranked_result:
  assumes "r \<in> set (rerank_search_results initial q k cf colf True dbg)"
  shows "\<exists>c \<in> set initial.
           r = from_reranked (snd (score_result (Some q) colf cf None True dbg (to_dict c)))"
proof (cases "initial = []")
  case True
  then show ?thesis
    using assms py_slice_to_subset[of k "[] :: SearchResult list"]
    by (simp add: rerank_search_results_def)
next
  case False
  let ?ranked = "rerank_results (map (\<lambda>r. AsDict (to_dict r)) initial) (Some q) colf cf None True dbg"
  have "r \<in> from_reranked ` set (py_slice_to k ?ranked)"
    using assms False by (simp add: rerank_search_results_def)
  then obtain rd where rd: "rd \<in> set (py_slice_to k ?ranked)" and r: "r = from_reranked rd"
    by (rule imageE)
  have "set (py_slice_to k ?ranked) \<subseteq> set ?ranked" by (rule py_slice_to_subset)
  then have "rd \<in> set ?ranked" using rd by (rule subsetD)
  then have "rd \<in> (\<lambda>d. snd (score_result (Some q) colf cf None True dbg d)) ` set (map to_dict initial)"
    unfolding set_rerank_results by (simp only: map_map comp_def result_to_dict.simps)
  then obtain c where "c \<in> set initial"
    "rd = snd (score_result (Some q) colf cf None True dbg (to_dict c))"
    by (auto simp only: set_map)
  then show ?thesis using r by (intro bexI[of _ c]) simp_all
qed

text \<open>
  Claim C7, as the code has it. With re-ranking enabled, every result of
  \<^verbatim>\<open>search_by_text\<close> comes from one of the retrieved candidates: its product fields and
  its distance are the candidate's, its \<^verbatim>\<open>similarity\<close> is the re-ranked final score of
  the candidate, and its \<^verbatim>\<open>debug_scores\<close> is absent without the debug flag. With the
  debug flag \<^verbatim>\<open>debug_scores\<close> holds the breakdown, whose \<^verbatim>\<open>vector_score\<close> is the
  vector similarity of the candidate.
\<close>

theorem reranked_similarity_is_final_score:
  "search_by_text co q k cf colf True dbg = Inr rs \<longrightarrow>
     (\<forall>r \<in> set rs. \<exists>raw.
         (\<exists>qv raws. embed_text co q = Inr qv
            \<and> weaviate_search co qv (max 30 (k * 3)) (given_filter cf) (given_filter colf)
                = Inr raws
            \<and> raw \<in> set raws)
       \<and> product_id r = pd_product_id (properties raw)
       \<and> title r = pd_title (properties raw)
       \<and> description r = pd_description (properties raw)
       \<and> color r = pd_color (properties raw)
       \<and> category r = pd_category (properties raw)
       \<and> image_path r = pd_image_path (properties raw)
       \<and> distance r = raw_distance raw
       \<and> similarity r
           = compute_final_score (Some (raw_similarity raw))
               (exact_match_boost colf (pd_color (properties raw)))
               (exact_match_boost cf (pd_category (properties raw)))
               (text_similarity (Some q) (pd_title (properties raw))) None
       \<and> debug_scores r
           = (if dbg
              then Some \<lparr>vector_score = raw_similarity raw,
                         color_score = exact_match_boost colf (pd_color (properties raw)),
                         category_score = exact_match_boost cf (pd_category (properties raw)),
                         text_score = text_similarity (Some q) (pd_title (properties raw)),
                         dbg_final_score = similarity r\<rparr>
              else None))"
proof (intro impI ballI)
  fix r
  assume ok: "search_by_text co q k cf colf True dbg = Inr rs" and r: "r \<in> set rs"
  obtain qv initial where qv: "embed_text co q = Inr qv"
    and sv: "search_by_vector co qv (max 30 (k * 3)) cf colf = Inr initial"
    and rs: "rs = rerank_search_results initial q k cf colf True dbg"
    using ok by (auto simp: search_by_text_def Let_def split: sum.splits)
  obtain c where c: "c \<in> set initial"
    and rc: "r = from_reranked (snd (score_result (Some q) colf cf None True dbg (to_dict c)))"
    using reranked_result r unfolding rs by blast
  obtain raws raw where w: "weaviate_search co qv (max 30 (k * 3)) (given_filter cf) (given_filter colf) = Inr raws"
    and raw: "raw \<in> set raws"
    and ci: "c = SearchResult_init (properties raw) (raw_similarity raw) (raw_distance raw)"
    using search_by_vector_results[OF sv c] by blast
  have fields: "product_id c = pd_product_id (properties raw)" "title c = pd_title (properties raw)"
    "description c = pd_description (properties raw)" "color c = pd_color (properties raw)"
    "category c = pd_category (properties raw)" "image_path c = pd_image_path (properties raw)"
    "similarity c = raw_similarity raw" "distance c = raw_distance raw" "debug_scores c = None"
    unfolding ci by (simp_all add: SearchResult_init_def)
  have prov: "\<exists>qv raws. embed_text co q = Inr qv
            \<and> weaviate_search co qv (max 30 (k * 3)) (given_filter cf) (given_filter colf)
                = Inr raws
            \<and> raw \<in> set raws"
    using qv w raw by blast
  show "\<exists>raw.
         (\<exists>qv raws. embed_text co q = Inr qv
            \<and> weaviate_search co qv (max 30 (k * 3)) (given_filter cf) (given_filter colf)
                = Inr raws
            \<and> raw \<in> set raws)
       \<and> product_id r = pd_product_id (properties raw)
       \<and> title r = pd_title (properties raw)
       \<and> description r = pd_description (properties raw)
       \<and> color r = pd_color (properties raw)
       \<and> category r = pd_category (properties raw)
       \<and> image_path r = pd_image_path (properties raw)
       \<and> distance r = raw_distance raw
       \<and> similarity r
           = compute_final_score (Some (raw_similarity raw))
               (exact_match_boost colf (pd_color (properties raw)))
               (exact_match_boost cf (pd_category (properties raw)))
               (text_similarity (Some q) (pd_title (properties raw))) None
       \<and> debug_scores r
           = (if dbg
              then Some \<lparr>vector_score = raw_similarity raw,
                         color_score = exact_match_boost colf (pd_color (properties raw)),
                         category_score = exact_match_boost cf (pd_category (properties raw)),
                         text_score = text_similarity (Some q) (pd_title (properties raw)),
                         dbg_final_score = similarity r\<rparr>
              else None)"
    using from_reranked_scored[OF rc] prov unfolding fields by (intro exI[of _ raw]) simp
qed

lemma search_example_debug:
  "search_by_text
     \<lparr>embed_text = (\<lambda>t. Inr [1]),
      weaviate_search = (\<lambda>v n c col. Inr
        [\<lparr>properties = \<lparr>pd_product_id = Some ''p1'', pd_title = Some ''hat'',
                         pd_description = Some ''a hat'', pd_color = Some ''red'',
                         pd_category = Some ''hats'', pd_image_path = Some ''hat.jpg''\<rparr>,
          raw_similarity = 1 / 2, raw_distance = 1 / 2\<rparr>])\<rparr>
     ''shoes'' 10 None None True dbg
   = Inr [\<lparr>product_id = Some ''p1'', title = Some ''hat'', description = Some ''a hat'',
           color = Some ''red'', category = Some ''hats'', image_path = Some ''hat.jpg'',
           similarity = 1 / 4, distance = 1 / 2,
           debug_scores = (if dbg then Some \<lparr>vector_score = 1 / 2, color_score = 0, category_score = 0,
                                 text_score = 0, dbg_final_score = 1 / 4\<rparr> else None)\<rparr>]"
  by (simp add: search_by_text_def search_by_vector_def given_filter_def keep_raw_def
        py_slice_to_def SearchResult_init_def rerank_search_results_def to_dict_def
        rerank_results_def sort_key_reverse_def score_result_def from_reranked_def Let_def
        exact_match_boost_def text_similarity_shoes_hat compute_final_score_half)

theorem reranked_similarity_is_final_score_witness:
  "\<exists>raw :: raw_result. raw_distance raw = 1 / 2
     \<and> (1 / 4 :: real)
         = compute_final_score (Some (raw_similarity raw))
             (exact_match_boost None (pd_color (properties raw)))
             (exact_match_boost None (pd_category (properties raw)))
             (text_similarity (Some ''shoes'') (pd_title (properties raw))) None"
proof -
  let ?co = "\<lparr>embed_text = (\<lambda>t. Inr [1]),
      weaviate_search = (\<lambda>v n c col. Inr
        [\<lparr>properties = \<lparr>pd_product_id = Some ''p1'', pd_title = Some ''hat'',
                         pd_description = Some ''a hat'', pd_color = Some ''red'',
                         pd_category = Some ''hats'', pd_image_path = Some ''hat.jpg''\<rparr>,
          raw_similarity = 1 / 2, raw_distance = 1 / 2\<rparr>])\<rparr>"
  let ?r = "\<lparr>product_id = Some ''p1'', title = Some ''hat'', description = Some ''a hat'',
           color = Some ''red'', category = Some ''hats'', image_path = Some ''hat.jpg'',
           similarity = 1 / 4, distance = 1 / 2, debug_scores = None\<rparr>"
  have ev: "search_by_text ?co ''shoes'' 10 None None True False = Inr [?r]"
    using search_example_debug[of False] by simp
  have mem: "?r \<in> set [?r]" by simp
  have "\<exists>raw :: raw_result. distance ?r = raw_distance raw
     \<and> similarity ?r
         = compute_final_score (Some (raw_similarity raw))
             (exact_match_boost None (pd_color (properties raw)))
             (exact_match_boost None (pd_category (properties raw)))
             (text_similarity (Some ''shoes'') (pd_title (properties raw))) None"
    using reranked_similarity_is_final_score[rule_format, OF ev mem]
    by (elim exE conjE) (intro exI conjI; assumption)
  then show ?thesis by simp
qed

text \<open>With the debug flag, the returned result carries the vector similarity 0.5 of the
  candidate in \<^verbatim>\<open>debug_scores\<close>, next to the final score 0.25 in \<^verbatim>\<open>similarity\<close>.\<close>

theorem debug_scores_hold_vector_similarity_counterexample:
  "search_by_text
     \<lparr>embed_text = (\<lambda>t. Inr [1]),
      weaviate_search = (\<lambda>v n c col. Inr
        [\<lparr>properties = \<lparr>pd_product_id = Some ''p1'', pd_title = Some ''hat'',
                         pd_description = Some ''a hat'', pd_color = Some ''red'',
                         pd_category = Some ''hats'', pd_image_path = Some ''hat.jpg''\<rparr>,
          raw_similarity = 1 / 2, raw_distance = 1 / 2\<rparr>])\<rparr>
     ''shoes'' 10 None None True True
   = Inr [\<lparr>product_id = Some ''p1'', title = Some ''hat'', description = Some ''a hat'',
           color = Some ''red'', category = Some ''hats'', image_path = Some ''hat.jpg'',
           similarity = 1 / 4, distance = 1 / 2,
           debug_scores = Some \<lparr>vector_score = 1 / 2, color_score = 0, category_score = 0,
                                 text_score = 0, dbg_final_score = 1 / 4\<rparr>\<rparr>]"
  using search_example_debug[of True] by simp




end
